theory Spec2Isabelle
  imports
    Complex_Main
    "HOL-Library.Word"
    "HOL-Library.Log_Nat"
    "HOL-Library.Signed_Division"
begin

section \<open>The SMIV back end of nnet\_lib (arch/smiv.c)\<close>

text \<open>
  The development follows \<^verbatim>\<open>nnet_lib/src/arch/smiv.c\<close>: the planner
  \<^verbatim>\<open>convolution_divide_work\<close>, the orchestration in \<^verbatim>\<open>convolution_runner\<close>,
  \<^verbatim>\<open>convolution_layer\<close>, \<^verbatim>\<open>inner_product_layer\<close> and its kernel, and the
  pass \<^verbatim>\<open>set_dma_requirements\<close>.

  C \<^verbatim>\<open>int\<close> and \<^verbatim>\<open>unsigned\<close> are 32-bit words; \<open>+\<close>, \<open>-\<close>, \<open>*\<close> wrap, \<open>\<le>\<close>, \<open><\<close>,
  \<open>div\<close> and \<open>min\<close> on words are the unsigned operations, \<open><s\<close> is the signed comparison.
  An \<^verbatim>\<open>assert\<close> that fails aborts the run; it is an error value here. The
  orchestration is modelled twice: by its outcome (the calls of a run that returns, or the
  error) and by its trace (the calls made up to the return or the abort, and the error if
  any); \<open>convolution_runner_outcome\<close> relates the two.
\<close>

subsection \<open>Data model\<close>

type_synonym u32 = "32 word"
type_synonym s32 = "32 word"

text \<open>
  Modelled from the spec: the enumerations of \<^verbatim>\<open>nnet_fwd.h\<close> are not among the
  sources. Each datatype has the constants that \<^verbatim>\<open>smiv.c\<close> names (\<^verbatim>\<open>NONE\<close>,
  \<^verbatim>\<open>SIGMOID\<close>; \<^verbatim>\<open>CONV\<close>, \<^verbatim>\<open>POOLING\<close>, \<^verbatim>\<open>SOFTMAX\<close>; \<^verbatim>\<open>FLATTEN\<close>; \<^verbatim>\<open>MAX\<close>),
  the inner-product layer type of the spec (\<open>FC\<close>), and one constructor for every other
  value of the enumeration. \<^verbatim>\<open>MAX\<close> is \<open>MAX_pool\<close>, the name being taken by the
  notation for maxima.
\<close>

datatype activation_type = NONE | SIGMOID | Other_activation nat

datatype layer_type = CONV | POOLING | FC | SOFTMAX | Other_layer nat

datatype input_pp = FLATTEN | Other_input_pp nat

datatype pool_type = MAX_pool | Other_pool nat

text \<open>
  Modelled from the spec: \<^verbatim>\<open>dims_t\<close> and \<^verbatim>\<open>layer_t\<close> are declared in
  \<^verbatim>\<open>nnet_fwd.h\<close>, which is not among the sources; the records have the fields
  that \<^verbatim>\<open>smiv.c\<close> reads and writes (all the dimension fields are C \<^verbatim>\<open>int\<close>).
\<close>

record dims_t =
  rows :: s32
  cols :: s32
  height :: s32
  align_pad :: s32

record layer_t =
  type :: layer_type
  activation :: activation_type
  input_preprocessing :: input_pp
  pool :: pool_type
  c_padding :: s32
  inputs :: dims_t
  weights :: dims_t
  outputs :: dims_t
  needs_input_dma_load :: bool
  needs_output_dma_store :: bool
  result_in_temp :: bool

text \<open>\<^verbatim>\<open>conv_cfg_t\<close>: the array of per-iteration dimensions and its size.\<close>

record conv_cfg_t =
  iteration :: "dims_t list"
  num_iterations :: u32

text \<open>
  A pointer is \<^verbatim>\<open>NULL\<close> or an allocation with an offset counted in elements
  (\<^verbatim>\<open>float\<close>s). The three accelerator-local buffers are the file's static pointers.
\<close>

datatype ptr = NULL | Ptr nat int

fun ptr_add :: "ptr \<Rightarrow> int \<Rightarrow> ptr" where
  "ptr_add NULL n = NULL"
| "ptr_add (Ptr b off) n = Ptr b (off + n)"

fun block :: "ptr \<Rightarrow> nat option" where
  "block NULL = None"
| "block (Ptr b off) = Some b"

record smiv_globals =
  umem :: ptr
  spad0 :: ptr
  spad1 :: ptr

definition SPAD_SIZE :: u32 where
  "SPAD_SIZE = 131072"

definition UMEM_SIZE :: u32 where
  "UMEM_SIZE = 3 * 1048576"

text \<open>
  The macros and helpers of \<^verbatim>\<open>nnet_fwd.h\<close> and \<^verbatim>\<open>utility.h\<close> that the file uses
  and that are not among the sources are parameters of the model:
  \<^item> \<open>NUM_TEST_CASES\<close>, the number of images of a run;
  \<^item> \<open>total_input_bytes l\<close>, the value of
    \<^verbatim>\<open>INPUT_BYTES(layers, lnum) / NUM_TEST_CASES\<close> as stored in the \<^verbatim>\<open>unsigned\<close>
    variable of that name, for the layer \<open>l\<close>;
  \<^item> \<open>calc_padding c\<close>, the value of \<^verbatim>\<open>calc_padding(c, DATA_ALIGNMENT)\<close>;
  \<^item> \<open>get_num_weights_layer\<close> and \<open>get_weights_loc_for_layer\<close>.
\<close>

record externs =
  NUM_TEST_CASES :: int
  total_input_bytes :: "layer_t \<Rightarrow> u32"
  calc_padding :: "s32 \<Rightarrow> s32"
  get_num_weights_layer :: "layer_t list \<Rightarrow> nat \<Rightarrow> s32"
  get_weights_loc_for_layer :: "layer_t list \<Rightarrow> nat \<Rightarrow> int"

text \<open>
  The ways a run aborts: the two assertions of \<^verbatim>\<open>convolution_divide_work\<close>, the
  assertion of \<^verbatim>\<open>convolution_runner\<close> on the number of final reduction rounds,
  and an integer division by zero.
\<close>

datatype error =
    Unsupported_input_size
  | Tiled_input_unsupported
  | Multiple_final_reductions
  | Division_by_zero

subsection \<open>Single-precision arithmetic\<close>

text \<open>
  \<^verbatim>\<open>convolution_divide_work\<close> and \<^verbatim>\<open>convolution_runner\<close> compute
  \<^verbatim>\<open>ceil((float)x / y)\<close> on unsigned values. Every value involved is non-negative
  and at most \<open>2^32\<close>, every quotient at least \<open>2^-32\<close>: far from overflow and
  from the subnormal numbers of IEEE-754 binary32. So a value of type \<^verbatim>\<open>float\<close> is
  a fraction of two naturals here, rounding is to 24 significant bits, to the nearest
  value and to the even significand on a tie.
\<close>

text \<open>The integer nearest to \<open>n / d\<close>, the even one on a tie.\<close>

definition rne_div :: "nat \<Rightarrow> nat \<Rightarrow> nat" where
  "rne_div n d =
     (let q = n div d; r = n mod d
      in if 2 * r < d then q
         else if d < 2 * r then q + 1
         else if even q then q else q + 1)"

text \<open>\<open>\<lfloor>log\<^sub>2 (a / b)\<rfloor>\<close> for positive \<open>a\<close> and \<open>b\<close>, from their bit lengths.\<close>

definition ilog2_quot :: "nat \<Rightarrow> nat \<Rightarrow> int" where
  "ilog2_quot a b =
     (let la = floorlog 2 a; lb = floorlog 2 b
      in if b * 2 ^ la \<le> a * 2 ^ lb then int la - int lb else int la - int lb - 1)"

text \<open>
  The binary32 value nearest to \<open>a / b\<close>, as a fraction (numerator, denominator): the
  significand is \<open>a / b\<close> scaled into \<open>[2^23, 2^24)\<close> and rounded, the exponent is put back.
\<close>

definition f32_round :: "nat \<Rightarrow> nat \<Rightarrow> nat \<times> nat" where
  "f32_round a b =
     (if a = 0 then (0, 1)
      else let e = ilog2_quot a b - 23;
               up = nat (- e); dn = nat e
           in (rne_div (a * 2 ^ up) (b * 2 ^ dn) * 2 ^ dn, 2 ^ up))"

text \<open>\<^verbatim>\<open>(float)x\<close> for an unsigned \<open>x\<close>: an integer again.\<close>

definition f32_of_nat :: "nat \<Rightarrow> nat" where
  "f32_of_nat a = (case f32_round a 1 of (n, d) \<Rightarrow> n div d)"

text \<open>\<^verbatim>\<open>ceil\<close> of a fraction.\<close>

definition ceil_frac :: "nat \<times> nat \<Rightarrow> nat" where
  "ceil_frac x = (case x of (n, d) \<Rightarrow> (n + d - 1) div d)"

text \<open>\<^verbatim>\<open>ceil((float)x / y)\<close> for unsigned \<open>x\<close> and \<open>y\<close>, both converted to \<^verbatim>\<open>float\<close>.\<close>

definition ceil_fdiv :: "u32 \<Rightarrow> u32 \<Rightarrow> nat" where
  "ceil_fdiv x y = ceil_frac (f32_round (f32_of_nat (unat x)) (f32_of_nat (unat y)))"

subsection \<open>The work divider\<close>

text \<open>The locals of \<^verbatim>\<open>convolution_divide_work\<close>, as it computes them.\<close>

definition total_output_bytes :: "layer_t \<Rightarrow> u32" where
  "total_output_bytes l =
     rows (outputs l) * (cols (outputs l) + align_pad (outputs l)) * height (inputs l) * 4"

definition output_channel_size :: "layer_t \<Rightarrow> u32" where
  "output_channel_size l =
     rows (outputs l) * (cols (outputs l) + align_pad (outputs l)) * 4"

definition max_channels_per_iter :: "layer_t \<Rightarrow> u32" where
  "max_channels_per_iter l = SPAD_SIZE div output_channel_size l"

text \<open>
  The loop that fills \<^verbatim>\<open>conv_cfgs.iteration\<close>: \<open>n\<close> entries are left to write,
  \<open>total_channels\<close> is the running (unsigned, wrapping) counter.
\<close>

fun divide_loop :: "externs \<Rightarrow> layer_t \<Rightarrow> u32 \<Rightarrow> nat \<Rightarrow> u32 \<Rightarrow> dims_t list" where
  "divide_loop ext l m 0 total_channels = []"
| "divide_loop ext l m (Suc n) total_channels =
     \<lparr>rows = rows (inputs l), cols = cols (inputs l),
      height = min total_channels m,
      align_pad = calc_padding ext (cols (inputs l))\<rparr>
     # divide_loop ext l m n (total_channels - m)"

definition convolution_divide_work :: "externs \<Rightarrow> layer_t list \<Rightarrow> nat \<Rightarrow> error + conv_cfg_t" where
  "convolution_divide_work ext layers lnum =
     (let l = layers ! lnum
      in if UMEM_SIZE < total_input_bytes ext l then Inl Unsupported_input_size
         else if total_output_bytes l \<le> SPAD_SIZE then
           Inr \<lparr>iteration =
                  [\<lparr>rows = rows (inputs l), cols = cols (inputs l),
                    height = height (inputs l),
                    align_pad = calc_padding ext (cols (inputs l))\<rparr>],
                num_iterations = 1\<rparr>
         else if output_channel_size l = 0 then Inl Division_by_zero
         else
           let input_channels = height (inputs l);
               m = max_channels_per_iter l
           in if 2 \<le> m then
                let n = (word_of_nat (ceil_fdiv input_channels m) :: u32)
                in Inr \<lparr>iteration = divide_loop ext l m (unat n) input_channels,
                        num_iterations = n\<rparr>
              else Inl Tiled_input_unsupported)"

text \<open>
  The footprints as the specification names them, in bytes and without the wrap-around
  of 32-bit arithmetic, to be compared with the values that the code computes: the input
  of one image, the unreduced output of one kernel, and its share for one input channel.
\<close>

definition input_footprint :: "layer_t \<Rightarrow> nat" where
  "input_footprint l =
     unat (rows (inputs l)) * (unat (cols (inputs l)) + unat (align_pad (inputs l)))
       * unat (height (inputs l)) * 4"

definition output_footprint :: "layer_t \<Rightarrow> nat" where
  "output_footprint l =
     unat (rows (outputs l)) * (unat (cols (outputs l)) + unat (align_pad (outputs l)))
       * unat (height (inputs l)) * 4"

definition channel_footprint :: "layer_t \<Rightarrow> nat" where
  "channel_footprint l =
     unat (rows (outputs l)) * (unat (cols (outputs l)) + unat (align_pad (outputs l))) * 4"


subsection \<open>Calls to the external collaborators\<close>

text \<open>
  The DMA helpers and the numeric kernels are external. A run is the list of the calls
  it makes to them, in order, each with its arguments as in the source; a kernel started
  through \<^verbatim>\<open>INVOKE_KERNEL\<close> is announced by an \<open>Invoke\<close> event that carries the
  arguments of the kernel. The \<^verbatim>\<open>MAP_ARRAY\<close> bookkeeping of the simulation harness
  and the debug printing are left out. \<^verbatim>\<open>size_t\<close> is 64 bits wide.
\<close>

type_synonym size_t = "64 word"

datatype event =
    DmaLoad ptr ptr size_t
  | DmaStore ptr ptr size_t
  | Grab_input_activations_dma ptr ptr layer_t
  | Store_output_activations_dma ptr ptr layer_t
  | Matrix_multiply_with_bias_smiv ptr ptr int s32 s32 s32 bool ptr
  | Convolution3d_smiv ptr ptr layer_t ptr
  | Reduction_smiv ptr layer_t ptr
  | Copy_zeropad ptr nat ptr
  | Memcpy ptr ptr size_t
  | Invoke_inner_product_layer_hw ptr ptr ptr ptr nat ptr ptr
  | Invoke_convolution_layer_hw ptr ptr ptr ptr layer_t nat nat nat u32 ptr
  | Invoke_reduction_hw ptr layer_t ptr size_t ptr

text \<open>
  Modelled from the spec: the bodies of the external operations are not among the
  sources. By their interface (destination first for \<^verbatim>\<open>dmaLoad\<close>, \<^verbatim>\<open>dmaStore\<close>
  and \<^verbatim>\<open>memcpy\<close>; host array first and local array second for the two activation
  helpers; result array last for the numeric kernels and for \<^verbatim>\<open>copy_zeropad\<close>) each
  call writes the one array that \<open>written\<close> names.
\<close>

fun written :: "event \<Rightarrow> ptr list" where
  "written (DmaLoad dst src n) = [dst]"
| "written (DmaStore dst src n) = [dst]"
| "written (Grab_input_activations_dma host loc l) = [loc]"
| "written (Store_output_activations_dma host loc l) = [host]"
| "written (Matrix_multiply_with_bias_smiv a w n r c p act res) = [res]"
| "written (Convolution3d_smiv a w l res) = [res]"
| "written (Reduction_smiv a l res) = [res]"
| "written (Copy_zeropad a lnum res) = [res]"
| "written (Memcpy dst src n) = [dst]"
| "written (Invoke_inner_product_layer_hw ha hw la lw lnum hr lr) = []"
| "written (Invoke_convolution_layer_hw ha hw la lw pl lnum img kern sc res) = []"
| "written (Invoke_reduction_hw u pl lr n hr) = []"

text \<open>
  Modelled from the spec, in the same way: the arrays that each call reads (source second
  for \<^verbatim>\<open>dmaLoad\<close>, \<^verbatim>\<open>dmaStore\<close> and \<^verbatim>\<open>memcpy\<close>; activations and weights first for
  the numeric kernels).
\<close>

fun reads :: "event \<Rightarrow> ptr list" where
  "reads (DmaLoad dst src n) = [src]"
| "reads (DmaStore dst src n) = [src]"
| "reads (Grab_input_activations_dma host loc l) = [host]"
| "reads (Store_output_activations_dma host loc l) = [loc]"
| "reads (Matrix_multiply_with_bias_smiv a w n r c p act res) = [a, w]"
| "reads (Convolution3d_smiv a w l res) = [a, w]"
| "reads (Reduction_smiv a l res) = [a]"
| "reads (Copy_zeropad a lnum res) = [a]"
| "reads (Memcpy dst src n) = [src]"
| "reads (Invoke_inner_product_layer_hw ha hw la lw lnum hr lr) = []"
| "reads (Invoke_convolution_layer_hw ha hw la lw pl lnum img kern sc res) = []"
| "reads (Invoke_reduction_hw u pl lr n hr) = []"

text \<open>
  The movement of data in a run: for each call that writes an array, in order, the arrays
  it reads and the arrays it writes, each named by its allocation.
\<close>

definition moves :: "event list \<Rightarrow> (nat option list \<times> nat option list) list" where
  "moves evs =
     map (\<lambda>e. (map block (reads e), map block (written e)))
       (filter (\<lambda>e. written e \<noteq> []) evs)"

subsection \<open>The work divider on the state of the program\<close>

text \<open>
  What \<^verbatim>\<open>convolution_divide_work\<close> could change besides returning its result: the
  array of layers that it is given by reference, the global pointers to the three local
  arrays, the lines printed, and the calls made to the external collaborators.
  \<^verbatim>\<open>PRINT_MSG\<close> is a macro of \<^verbatim>\<open>utility.h\<close>, which is not among the sources; it
  prints in a build with debugging output, the parameter \<open>debug\<close>. The results are those
  of \<open>convolution_divide_work\<close>, branch by branch.
\<close>

record program_state =
  layers_array :: "layer_t list"
  local_arrays :: smiv_globals
  printed :: "string list"
  external_calls :: "event list"

definition PRINT_MSG :: "bool \<Rightarrow> string \<Rightarrow> program_state \<Rightarrow> program_state" where
  "PRINT_MSG debug msg s = (if debug then s\<lparr>printed := printed s @ [msg]\<rparr> else s)"

definition convolution_divide_work_run ::
  "externs \<Rightarrow> bool \<Rightarrow> program_state \<Rightarrow> nat \<Rightarrow> (error + conv_cfg_t) \<times> program_state" where
  "convolution_divide_work_run ext debug s lnum =
     (let l = layers_array s ! lnum
      in if UMEM_SIZE < total_input_bytes ext l then
           (Inl Unsupported_input_size,
            s\<lparr>printed := printed s
                 @ [''A single input image exceeds the capacity of the UMEM, which is not supported!'']\<rparr>)
         else if total_output_bytes l \<le> SPAD_SIZE then
           (Inr \<lparr>iteration =
                   [\<lparr>rows = rows (inputs l), cols = cols (inputs l),
                     height = height (inputs l),
                     align_pad = calc_padding ext (cols (inputs l))\<rparr>],
                 num_iterations = 1\<rparr>,
            PRINT_MSG debug ''Entire input problem fits into the local memory.'' s)
         else if output_channel_size l = 0 then (Inl Division_by_zero, s)
         else
           let input_channels = height (inputs l);
               m = max_channels_per_iter l
           in if 2 \<le> m then
                let n = (word_of_nat (ceil_fdiv input_channels m) :: u32)
                in (Inr \<lparr>iteration = divide_loop ext l m (unat n) input_channels,
                         num_iterations = n\<rparr>,
                    PRINT_MSG debug ''We can fit at least 2 unreduced input channels at once.'' s)
              else (Inl Tiled_input_unsupported, s))"

subsection \<open>Inner-product layers\<close>

definition inner_product_layer_hw ::
  "externs \<Rightarrow> ptr \<Rightarrow> ptr \<Rightarrow> ptr \<Rightarrow> ptr \<Rightarrow> layer_t list \<Rightarrow> nat \<Rightarrow> ptr \<Rightarrow> ptr \<Rightarrow> event list" where
  "inner_product_layer_hw ext host_activations host_weights local_activations local_weights
       layers lnum host_result local_result =
     (let run_activation = (activation (layers ! lnum) \<noteq> NONE);
          weights_size = get_num_weights_layer ext layers lnum * 4
      in [DmaLoad local_weights host_weights (scast weights_size)]
         @ (if needs_input_dma_load (layers ! lnum)
            then [Grab_input_activations_dma host_activations local_activations (layers ! lnum)]
            else [])
         @ [Matrix_multiply_with_bias_smiv local_activations local_weights (NUM_TEST_CASES ext)
              (rows (weights (layers ! lnum)))
              (cols (weights (layers ! lnum)) + align_pad (weights (layers ! lnum)))
              (align_pad (inputs (layers ! lnum))) run_activation local_result]
         @ (if needs_output_dma_store (layers ! lnum)
            then [Store_output_activations_dma host_result local_result (layers ! lnum)]
            else []))"

text \<open>
  \<^verbatim>\<open>inner_product_layer\<close>: the function-local static \<^verbatim>\<open>current_result_loc\<close> is
  the state, taken and returned; the result is the new state, the calls made, and the
  returned \<^verbatim>\<open>result_buf\<close>.
\<close>

definition inner_product_layer ::
  "externs \<Rightarrow> smiv_globals \<Rightarrow> ptr \<Rightarrow> ptr \<Rightarrow> ptr \<Rightarrow> layer_t list \<Rightarrow> nat \<Rightarrow> ptr
     \<Rightarrow> ptr \<times> event list \<times> ptr" where
  "inner_product_layer ext g current_result_loc host_activations host_weights layers lnum
       host_result =
     (let current_result_loc' =
            (if current_result_loc = NULL then spad1 g
             else if current_result_loc = spad0 g then spad1 g
             else if current_result_loc = spad1 g then spad0 g
             else current_result_loc);
          host_weights_layer =
            ptr_add host_weights (get_weights_loc_for_layer ext layers lnum)
      in if current_result_loc' = spad0 g then
           (current_result_loc',
            Invoke_inner_product_layer_hw host_activations host_weights_layer (spad1 g) (umem g)
                lnum host_result (spad0 g)
              # inner_product_layer_hw ext host_activations host_weights_layer (spad1 g) (umem g)
                  layers lnum host_result (spad0 g),
            host_result)
         else
           (current_result_loc',
            Invoke_inner_product_layer_hw host_activations host_weights_layer (spad0 g) (umem g)
                lnum host_result (spad1 g)
              # inner_product_layer_hw ext host_activations host_weights_layer (spad0 g) (umem g)
                  layers lnum host_result (spad1 g),
            host_result))"

text \<open>
  Successive calls within one forward pass, that is with the local arrays \<open>g\<close> of that
  pass: each call is given by its arguments (activations, weights, layers, layer number,
  result), the static variable is threaded through, starting from the value it has at the
  start of the pass (\<open>NULL\<close> at program start).
\<close>

type_synonym ip_call = "ptr \<times> ptr \<times> layer_t list \<times> nat \<times> ptr"

fun inner_product_calls ::
  "externs \<Rightarrow> smiv_globals \<Rightarrow> ptr \<Rightarrow> ip_call list \<Rightarrow> ptr \<times> event list" where
  "inner_product_calls ext g cur [] = (cur, [])"
| "inner_product_calls ext g cur ((ha, hw, layers, lnum, hr) # cs) =
     (case inner_product_layer ext g cur ha hw layers lnum hr of
        (cur', evs, res) \<Rightarrow>
          (case inner_product_calls ext g cur' cs of
             (cur'', evs') \<Rightarrow> (cur'', evs @ evs')))"

text \<open>
  Successive forward passes within one process: \<^verbatim>\<open>nnet_fwd\<close> allocates the three
  local arrays at its start and frees them at its end, so each pass has its own
  \<open>smiv_globals\<close>, while the static variable of \<^verbatim>\<open>inner_product_layer\<close> keeps its
  value from one pass to the next. A pass is given by its local arrays and the calls of
  \<^verbatim>\<open>inner_product_layer\<close> made during it.
\<close>

fun inner_product_passes ::
  "externs \<Rightarrow> ptr \<Rightarrow> (smiv_globals \<times> ip_call list) list \<Rightarrow> ptr \<times> event list" where
  "inner_product_passes ext cur [] = (cur, [])"
| "inner_product_passes ext cur ((g, cs) # ps) =
     (case inner_product_calls ext g cur cs of
        (cur', evs) \<Rightarrow>
          (case inner_product_passes ext cur' ps of
             (cur'', evs') \<Rightarrow> (cur'', evs @ evs')))"

text \<open>
  The scratchpads of the kernel invocations of a run, in order: the pair (activation
  scratchpad, result scratchpad) of each \<^verbatim>\<open>inner_product_layer_hw\<close> invocation.
\<close>

fun scratchpads :: "event list \<Rightarrow> (ptr \<times> ptr) list" where
  "scratchpads [] = []"
| "scratchpads (Invoke_inner_product_layer_hw ha hw la lw lnum hr lr # es) =
     (la, lr) # scratchpads es"
| "scratchpads (e # es) = scratchpads es"

subsection \<open>Convolution layers\<close>

definition reduction_hw :: "ptr \<Rightarrow> layer_t \<Rightarrow> ptr \<Rightarrow> size_t \<Rightarrow> ptr \<Rightarrow> event list" where
  "reduction_hw unreduced_activations partial_layer local_result result_size host_result =
     [Reduction_smiv unreduced_activations partial_layer local_result,
      DmaStore host_result local_result (result_size * 4)]"

text \<open>
  \<^verbatim>\<open>convolution_layer_hw\<close>; the two addresses are those of
  \<^verbatim>\<open>&_kernels[kern][start_chan][0][0]\<close> and \<^verbatim>\<open>&_a[img][start_chan][0][0]\<close>.
\<close>

definition convolution_layer_hw ::
  "ptr \<Rightarrow> ptr \<Rightarrow> ptr \<Rightarrow> ptr \<Rightarrow> layer_t list \<Rightarrow> layer_t \<Rightarrow> nat \<Rightarrow> nat \<Rightarrow> nat \<Rightarrow> s32 \<Rightarrow> ptr
     \<Rightarrow> event list" where
  "convolution_layer_hw host_activations host_weights local_activations local_weights
       all_layers partial_layer layer_num img kern start_chan result =
     (let curr_layer = all_layers ! layer_num;
          input_height = sint (height (inputs curr_layer));
          input_rows = sint (rows (inputs curr_layer));
          input_cols = sint (cols (inputs curr_layer));
          input_pad = sint (align_pad (inputs curr_layer));
          k_width = sint (cols (weights curr_layer));
          k_pad = sint (align_pad (weights curr_layer));
          num_weights =
            (scast (rows (weights partial_layer) * height (weights partial_layer)
                      * (cols (weights partial_layer) + align_pad (weights partial_layer)))
               :: size_t);
          num_input_pixels =
            (scast (rows (inputs partial_layer) * height (inputs partial_layer)
                      * (cols (inputs partial_layer) + align_pad (inputs partial_layer)))
               :: size_t)
      in [DmaLoad local_weights
            (ptr_add host_weights
               ((int kern * input_height + sint start_chan) * k_width * (k_width + k_pad)))
            (num_weights * 4)]
         @ (if needs_input_dma_load partial_layer
            then [DmaLoad local_activations
                    (ptr_add host_activations
                       ((int img * input_height + sint start_chan) * input_rows
                          * (input_cols + input_pad)))
                    (num_input_pixels * 4)]
            else [])
         @ [Convolution3d_smiv local_activations local_weights partial_layer result])"

definition result_2d_size :: "layer_t \<Rightarrow> s32" where
  "result_2d_size l = rows (outputs l) * (cols (outputs l) + align_pad (outputs l))"

text \<open>The layer description that \<^verbatim>\<open>convolution_runner\<close> creates for one iteration.\<close>

definition iteration_layer :: "layer_t \<Rightarrow> conv_cfg_t \<Rightarrow> dims_t \<Rightarrow> layer_t" where
  "iteration_layer curr_layer conv_cfgs iter_cfg =
     curr_layer
       \<lparr>inputs := (inputs curr_layer)\<lparr>height := height iter_cfg\<rparr>,
        outputs := (outputs curr_layer)\<lparr>height := height iter_cfg\<rparr>,
        weights := (weights curr_layer)\<lparr>height := height iter_cfg\<rparr>,
        activation := (if num_iterations conv_cfgs = 1 then activation curr_layer else NONE)\<rparr>"

text \<open>
  The loop over the iterations of the plan for one image and one kernel; \<open>start_chan\<close>
  and \<open>result_loc\<close> are the two running variables.
\<close>

fun conv_iterations ::
  "smiv_globals \<Rightarrow> ptr \<Rightarrow> ptr \<Rightarrow> layer_t list \<Rightarrow> nat \<Rightarrow> conv_cfg_t \<Rightarrow> nat \<Rightarrow> nat
     \<Rightarrow> dims_t list \<Rightarrow> u32 \<Rightarrow> ptr \<Rightarrow> event list" where
  "conv_iterations g host_activations host_weights layers lnum conv_cfgs img kern []
       start_chan result_loc = []"
| "conv_iterations g host_activations host_weights layers lnum conv_cfgs img kern
       (iter_cfg # rest) start_chan result_loc =
     (let curr_layer = layers ! lnum;
          partial_layer = iteration_layer curr_layer conv_cfgs iter_cfg
      in Invoke_convolution_layer_hw host_activations host_weights (umem g) (spad0 g)
             partial_layer lnum img kern start_chan (spad1 g)
           # convolution_layer_hw host_activations host_weights (umem g) (spad0 g)
               layers partial_layer lnum img kern start_chan (spad1 g)
           @ Invoke_reduction_hw (spad1 g) partial_layer (umem g)
               (scast (result_2d_size curr_layer)) result_loc
           # reduction_hw (spad1 g) partial_layer (umem g)
               (scast (result_2d_size curr_layer)) result_loc
           @ conv_iterations g host_activations host_weights layers lnum conv_cfgs img kern
               rest (start_chan + height iter_cfg)
               (ptr_add result_loc (sint (result_2d_size curr_layer))))"

text \<open>The reduction rounds of "Finish off the reduction here", \<open>n\<close> rounds left.\<close>

fun final_rounds :: "smiv_globals \<Rightarrow> layer_t \<Rightarrow> size_t \<Rightarrow> int \<Rightarrow> nat \<Rightarrow> ptr \<Rightarrow> event list" where
  "final_rounds g partial_layer result_size step 0 result_loc = []"
| "final_rounds g partial_layer result_size step (Suc n) result_loc =
     Invoke_reduction_hw (spad1 g) partial_layer (umem g) result_size result_loc
       # reduction_hw (spad1 g) partial_layer (umem g) result_size result_loc
       @ final_rounds g partial_layer result_size step n (ptr_add result_loc step)"

text \<open>
  The block guarded by \<^verbatim>\<open>conv_cfgs.num_iterations > 1\<close>. \<^verbatim>\<open>result_iter\<close> is
  \<^verbatim>\<open>ceil(result_2d_size * conv_cfgs.num_iterations / (float)SPAD_SIZE)\<close>, the product
  being unsigned; \<^verbatim>\<open>SPAD_SIZE / result_2d_size\<close> is a division of two \<^verbatim>\<open>int\<close>s.
\<close>

definition final_reduction ::
  "smiv_globals \<Rightarrow> layer_t \<Rightarrow> conv_cfg_t \<Rightarrow> ptr \<Rightarrow> error + event list" where
  "final_reduction g curr_layer conv_cfgs temp_result =
     (if 1 < num_iterations conv_cfgs then
        let result_iter =
              ceil_fdiv (result_2d_size curr_layer * num_iterations conv_cfgs) SPAD_SIZE
        in if result_iter \<noteq> 1 then Inl Multiple_final_reductions
           else if result_2d_size curr_layer = 0 then Inl Division_by_zero
           else
             let num_result_chans =
                   min (num_iterations conv_cfgs)
                       (word_of_int (sint SPAD_SIZE sdiv sint (result_2d_size curr_layer)));
                 partial_layer =
                   curr_layer
                     \<lparr>inputs := (inputs curr_layer)\<lparr>height := num_result_chans\<rparr>,
                      outputs := (outputs curr_layer)\<lparr>height := 1\<rparr>\<rparr>
             in Inr (final_rounds g partial_layer (scast (result_2d_size curr_layer))
                       (sint (result_2d_size curr_layer)) result_iter temp_result)
      else Inr [])"

text \<open>
  The body of the loop over the kernels: the iterations, the final reduction, and the copy
  of the finished slice to \<^verbatim>\<open>&_result[img][kern][0][0]\<close>. This is its outcome: the
  calls of a body that reaches its end, or the error of the failed assertion.
\<close>

definition conv_kernel ::
  "smiv_globals \<Rightarrow> ptr \<Rightarrow> ptr \<Rightarrow> ptr \<Rightarrow> layer_t list \<Rightarrow> nat \<Rightarrow> ptr \<Rightarrow> conv_cfg_t \<Rightarrow> nat \<Rightarrow> nat
     \<Rightarrow> error + event list" where
  "conv_kernel g temp_result host_activations host_weights layers lnum host_result conv_cfgs
       img kern =
     (let curr_layer = layers ! lnum;
          num_kerns = sint (height (outputs curr_layer));
          result_height = sint (rows (outputs curr_layer));
          result_width = sint (cols (outputs curr_layer));
          result_pad = sint (align_pad (outputs curr_layer))
      in case final_reduction g curr_layer conv_cfgs temp_result of
           Inl e \<Rightarrow> Inl e
         | Inr fin \<Rightarrow>
             Inr (conv_iterations g host_activations host_weights layers lnum conv_cfgs
                    img kern (iteration conv_cfgs) 0 temp_result
                  @ fin
                  @ [Memcpy
                       (ptr_add host_result
                          ((int img * num_kerns + int kern) * result_height
                             * (result_width + result_pad)))
                       temp_result
                       (scast (result_2d_size curr_layer) * 4)]))"

text \<open>A counted loop whose body may abort: the bodies run in order up to the first abort.\<close>

fun for_each :: "(nat \<Rightarrow> error + event list) \<Rightarrow> nat list \<Rightarrow> error + event list" where
  "for_each body [] = Inr []"
| "for_each body (i # is) =
     (case body i of
        Inl e \<Rightarrow> Inl e
      | Inr evs \<Rightarrow> (case for_each body is of Inl e \<Rightarrow> Inl e | Inr evs' \<Rightarrow> Inr (evs @ evs')))"

text \<open>
  \<^verbatim>\<open>convolution_runner\<close>; \<open>temp_result\<close> is the pointer that its \<^verbatim>\<open>malloc\<close>
  returns.
\<close>

definition convolution_runner ::
  "externs \<Rightarrow> smiv_globals \<Rightarrow> ptr \<Rightarrow> ptr \<Rightarrow> ptr \<Rightarrow> layer_t list \<Rightarrow> nat \<Rightarrow> ptr
     \<Rightarrow> error + event list" where
  "convolution_runner ext g temp_result host_activations host_weights layers lnum host_result =
     (let curr_layer = layers ! lnum;
          num_kerns = height (outputs curr_layer)
      in case convolution_divide_work ext layers lnum of
           Inl e \<Rightarrow> Inl e
         | Inr conv_cfgs \<Rightarrow>
             for_each
               (\<lambda>img. for_each
                  (conv_kernel g temp_result host_activations host_weights layers lnum
                     host_result conv_cfgs img)
                  [0..<nat (sint num_kerns)])
               [0..<nat (NUM_TEST_CASES ext)])"

text \<open>
  The same three levels with the calls made before an abort kept: a run is the list of
  the calls made up to its end, together with the error of the failed assertion if there
  was one. In the body of the loop over the kernels the iterations come before the
  assertion on \<^verbatim>\<open>result_iter\<close>.
\<close>

definition conv_kernel_trace ::
  "smiv_globals \<Rightarrow> ptr \<Rightarrow> ptr \<Rightarrow> ptr \<Rightarrow> layer_t list \<Rightarrow> nat \<Rightarrow> ptr \<Rightarrow> conv_cfg_t \<Rightarrow> nat \<Rightarrow> nat
     \<Rightarrow> event list \<times> error option" where
  "conv_kernel_trace g temp_result host_activations host_weights layers lnum host_result
       conv_cfgs img kern =
     (let curr_layer = layers ! lnum;
          num_kerns = sint (height (outputs curr_layer));
          result_height = sint (rows (outputs curr_layer));
          result_width = sint (cols (outputs curr_layer));
          result_pad = sint (align_pad (outputs curr_layer));
          iterations =
            conv_iterations g host_activations host_weights layers lnum conv_cfgs
              img kern (iteration conv_cfgs) 0 temp_result
      in case final_reduction g curr_layer conv_cfgs temp_result of
           Inl e \<Rightarrow> (iterations, Some e)
         | Inr fin \<Rightarrow>
             (iterations
                @ fin
                @ [Memcpy
                     (ptr_add host_result
                        ((int img * num_kerns + int kern) * result_height
                           * (result_width + result_pad)))
                     temp_result
                     (scast (result_2d_size curr_layer) * 4)],
              None))"

fun for_each_trace ::
  "(nat \<Rightarrow> event list \<times> error option) \<Rightarrow> nat list \<Rightarrow> event list \<times> error option" where
  "for_each_trace body [] = ([], None)"
| "for_each_trace body (i # is) =
     (case body i of
        (evs, Some e) \<Rightarrow> (evs, Some e)
      | (evs, None) \<Rightarrow> (case for_each_trace body is of (evs', r) \<Rightarrow> (evs @ evs', r)))"

definition convolution_runner_trace ::
  "externs \<Rightarrow> smiv_globals \<Rightarrow> ptr \<Rightarrow> ptr \<Rightarrow> ptr \<Rightarrow> layer_t list \<Rightarrow> nat \<Rightarrow> ptr
     \<Rightarrow> event list \<times> error option" where
  "convolution_runner_trace ext g temp_result host_activations host_weights layers lnum
       host_result =
     (let curr_layer = layers ! lnum;
          num_kerns = height (outputs curr_layer)
      in case convolution_divide_work ext layers lnum of
           Inl e \<Rightarrow> ([], Some e)
         | Inr conv_cfgs \<Rightarrow>
             for_each_trace
               (\<lambda>img. for_each_trace
                  (conv_kernel_trace g temp_result host_activations host_weights layers lnum
                     host_result conv_cfgs img)
                  [0..<nat (sint num_kerns)])
               [0..<nat (NUM_TEST_CASES ext)])"


text \<open>
  Projections of a run: the layer descriptions handed to the convolution kernel, the host
  arrays it is told to read, the destinations of the copies, and the calls of
  \<^verbatim>\<open>copy_zeropad\<close>.
\<close>

fun partial_layers :: "event list \<Rightarrow> layer_t list" where
  "partial_layers [] = []"
| "partial_layers (Invoke_convolution_layer_hw ha hw la lw pl lnum img kern sc res # es) =
     pl # partial_layers es"
| "partial_layers (e # es) = partial_layers es"

fun conv_inputs :: "event list \<Rightarrow> ptr list" where
  "conv_inputs [] = []"
| "conv_inputs (Invoke_convolution_layer_hw ha hw la lw pl lnum img kern sc res # es) =
     ha # conv_inputs es"
| "conv_inputs (e # es) = conv_inputs es"

fun copy_dests :: "event list \<Rightarrow> ptr list" where
  "copy_dests [] = []"
| "copy_dests (Memcpy dst src n # es) = dst # copy_dests es"
| "copy_dests (e # es) = copy_dests es"

fun zeropads :: "event list \<Rightarrow> (ptr \<times> nat \<times> ptr) list" where
  "zeropads [] = []"
| "zeropads (Copy_zeropad a lnum res # es) = (a, lnum, res) # zeropads es"
| "zeropads (e # es) = zeropads es"

subsection \<open>The DMA requirements\<close>

text \<open>
  Modelled from the spec: \<^verbatim>\<open>network_t\<close> is declared in \<^verbatim>\<open>nnet_fwd.h\<close>, which is
  not among the sources; it has the array of layers and the depth.
\<close>

record network_t =
  layers :: "layer_t list"
  depth :: int

text \<open>
  The body of the first loop of \<^verbatim>\<open>set_dma_requirements\<close> for one \<open>layer_num\<close>,
  on the array of layers. The disjunction is C's \<^verbatim>\<open>||\<close>: for the last layer its
  first operand holds and the layer after it is not read.
\<close>

definition dma_step :: "int \<Rightarrow> layer_t list \<Rightarrow> nat \<Rightarrow> layer_t list" where
  "dma_step d ls layer_num =
     (if layer_num = 0 then
        ls[0 := (ls ! 0)\<lparr>needs_input_dma_load := False, needs_output_dma_store := True\<rparr>]
      else
        let store =
              (int layer_num = d - 1
               \<or> activation (ls ! layer_num) = SIGMOID
               \<or> type (ls ! layer_num) = POOLING
               \<or> type (ls ! layer_num) = CONV
               \<or> input_preprocessing (ls ! layer_num) = FLATTEN
               \<or> type (ls ! (layer_num + 1)) = POOLING
               \<or> type (ls ! (layer_num + 1)) = SOFTMAX);
            ls1 = ls[layer_num := (ls ! layer_num)\<lparr>needs_output_dma_store := store\<rparr>]
        in ls1[layer_num :=
                 (ls1 ! layer_num)
                   \<lparr>needs_input_dma_load := needs_output_dma_store (ls1 ! (layer_num - 1))\<rparr>])"

definition set_dma_requirements :: "network_t \<Rightarrow> network_t" where
  "set_dma_requirements network =
     network\<lparr>layers := foldl (dma_step (depth network)) (layers network)
                          [0..<nat (depth network)]\<rparr>"

text \<open>
  The rule of the spec for the output transfer of layer \<open>i\<close> of a network of depth \<open>d\<close>
  (section 4.1), to be compared with what \<open>set_dma_requirements\<close> stores: layer 0
  always, the last layer, a sigmoid activation, a pooling or convolution layer, a
  flattened input, or a next layer that is a pooling or a softmax layer.
\<close>

definition needs_output_rule :: "int \<Rightarrow> layer_t list \<Rightarrow> nat \<Rightarrow> bool" where
  "needs_output_rule d ls i \<longleftrightarrow>
     i = 0 \<or> int i = d - 1
     \<or> activation (ls ! i) = SIGMOID
     \<or> type (ls ! i) = POOLING \<or> type (ls ! i) = CONV
     \<or> input_preprocessing (ls ! i) = FLATTEN
     \<or> type (ls ! (i + 1)) = POOLING \<or> type (ls ! (i + 1)) = SOFTMAX"

subsection \<open>Example inputs\<close>

text \<open>
  Concrete values for the parameters: one image per run, an input footprint of
  rows \<open>\<times>\<close> (cols + pad) \<open>\<times>\<close> channels \<open>\<times>\<close> 4 bytes, padding of a row to a multiple of 8
  elements.
\<close>

definition ext_ex :: externs where
  "ext_ex =
     \<lparr>NUM_TEST_CASES = 1,
      total_input_bytes =
        (\<lambda>l. rows (inputs l) * (cols (inputs l) + align_pad (inputs l)) * height (inputs l) * 4),
      calc_padding = (\<lambda>c. if c mod 8 = 0 then 0 else 8 - c mod 8),
      get_num_weights_layer =
        (\<lambda>ls n. rows (weights (ls ! n)) * cols (weights (ls ! n)) * height (weights (ls ! n))),
      get_weights_loc_for_layer = (\<lambda>ls n. 0)\<rparr>"

definition g_ex :: smiv_globals where
  "g_ex = \<lparr>umem = Ptr 0 0, spad0 = Ptr 1 0, spad1 = Ptr 2 0\<rparr>"

text \<open>The local arrays of a later forward pass, allocated anew.\<close>

definition g_ex2 :: smiv_globals where
  "g_ex2 = \<lparr>umem = Ptr 7 0, spad0 = Ptr 8 0, spad1 = Ptr 9 0\<rparr>"

definition dims :: "s32 \<Rightarrow> s32 \<Rightarrow> s32 \<Rightarrow> s32 \<Rightarrow> dims_t" where
  "dims r c h p = \<lparr>rows = r, cols = c, height = h, align_pad = p\<rparr>"

text \<open>A 3x3 convolution of a 130x130 image with 6 channels, one kernel, sigmoid.\<close>

definition conv_tiled :: layer_t where
  "conv_tiled =
     \<lparr>type = CONV, activation = SIGMOID, input_preprocessing = Other_input_pp 0, pool = MAX_pool,
      c_padding = 0, inputs = dims 130 130 6 6, weights = dims 3 3 6 5,
      outputs = dims 128 128 1 0,
      needs_input_dma_load = True, needs_output_dma_store = True, result_in_temp = False\<rparr>"

text \<open>A 3x3 convolution of a zero-padded 10x10 image with 4 channels, two kernels.\<close>

definition conv_small :: layer_t where
  "conv_small =
     \<lparr>type = CONV, activation = Other_activation 0, input_preprocessing = Other_input_pp 0,
      pool = MAX_pool, c_padding = 1, inputs = dims 10 10 4 6, weights = dims 3 3 4 5,
      outputs = dims 8 8 2 0,
      needs_input_dma_load = True, needs_output_dma_store = True, result_in_temp = False\<rparr>"

text \<open>An 8x8 convolution with stride 8 of a 1024x1024 image with 4 channels.\<close>

definition conv_large_image :: layer_t where
  "conv_large_image =
     \<lparr>type = CONV, activation = NONE, input_preprocessing = Other_input_pp 0, pool = MAX_pool,
      c_padding = 0, inputs = dims 1024 1024 4 0, weights = dims 8 8 4 0,
      outputs = dims 128 128 1 0,
      needs_input_dma_load = True, needs_output_dma_store = True, result_in_temp = False\<rparr>"

text \<open>A 3x3 convolution of a 258x258 image with 2 channels: one output channel is 256 KB.\<close>

definition conv_wide :: layer_t where
  "conv_wide =
     \<lparr>type = CONV, activation = NONE, input_preprocessing = Other_input_pp 0, pool = MAX_pool,
      c_padding = 0, inputs = dims 258 258 2 6, weights = dims 3 3 2 5,
      outputs = dims 256 256 1 0,
      needs_input_dma_load = True, needs_output_dma_store = True, result_in_temp = False\<rparr>"

text \<open>The layer \<open>conv_tiled\<close> with 18 input channels instead of 6.\<close>

definition conv_deep :: layer_t where
  "conv_deep =
     \<lparr>type = CONV, activation = SIGMOID, input_preprocessing = Other_input_pp 0, pool = MAX_pool,
      c_padding = 0, inputs = dims 130 130 18 6, weights = dims 3 3 18 5,
      outputs = dims 128 128 1 0,
      needs_input_dma_load = True, needs_output_dma_store = True, result_in_temp = False\<rparr>"

text \<open>
  A layer description with a 32768x32768 output and one input channel: the unreduced
  output of one kernel is \<open>2^32\<close> bytes.
\<close>

definition conv_huge_output :: layer_t where
  "conv_huge_output =
     \<lparr>type = CONV, activation = NONE, input_preprocessing = Other_input_pp 0, pool = MAX_pool,
      c_padding = 0, inputs = dims 8 8 1 0, weights = dims 3 3 1 5,
      outputs = dims 32768 32768 1 0,
      needs_input_dma_load = True, needs_output_dma_store = True, result_in_temp = False\<rparr>"

text \<open>An inner-product layer that keeps its input and its output on the accelerator.\<close>

definition fc_resident :: layer_t where
  "fc_resident =
     \<lparr>type = FC, activation = Other_activation 0, input_preprocessing = Other_input_pp 0,
      pool = MAX_pool, c_padding = 0, inputs = dims 1 256 1 0, weights = dims 256 128 1 0,
      outputs = dims 1 128 1 0,
      needs_input_dma_load = False, needs_output_dma_store = False, result_in_temp = False\<rparr>"

text \<open>A max-pooling layer.\<close>

definition pool_ex :: layer_t where
  "pool_ex =
     \<lparr>type = POOLING, activation = NONE, input_preprocessing = Other_input_pp 0,
      pool = MAX_pool, c_padding = 0, inputs = dims 8 8 2 0, weights = dims 2 2 2 0,
      outputs = dims 4 4 2 0,
      needs_input_dma_load = False, needs_output_dma_store = False, result_in_temp = False\<rparr>"

section \<open>Properties\<close>

subsection \<open>Single-precision ceilings are exact below \<open>2^24\<close>\<close>

lemma ilog2_quot_lower:
  assumes "0 < a" "0 < b"
  shows "b * 2 ^ nat (ilog2_quot a b) \<le> a * 2 ^ nat (- ilog2_quot a b)"
proof -
  define la where "la = floorlog 2 a"
  define lb where "lb = floorlog 2 b"
  have a_lo: "2 ^ (la - 1) \<le> a" and a_hi: "a < 2 ^ la"
    using floorlog_bounds [of a 2] assms by (simp_all add: la_def)
  have b_lo: "2 ^ (lb - 1) \<le> b" and b_hi: "b < 2 ^ lb"
    using floorlog_bounds [of b 2] assms by (simp_all add: lb_def)
  have la_pos: "0 < la" using a_hi assms by (cases la) auto
  have lb_pos: "0 < lb" using b_hi assms by (cases lb) auto
  show ?thesis
  proof (cases "b * 2 ^ la \<le> a * 2 ^ lb")
    case True
    then have L: "ilog2_quot a b = int la - int lb"
      by (simp add: ilog2_quot_def la_def lb_def)
    show ?thesis
    proof (cases "lb \<le> la")
      case le: True
      have eq: "(2::nat) ^ la = 2 ^ (la - lb) * 2 ^ lb"
        using le by (simp add: power_add [symmetric])
      have "(b * 2 ^ (la - lb)) * 2 ^ lb \<le> a * 2 ^ lb"
        using True unfolding eq by (simp only: mult.assoc)
      then have "b * 2 ^ (la - lb) \<le> a"
        unfolding mult_le_cancel2 by simp
      moreover have "nat (int la - int lb) = la - lb" "nat (- (int la - int lb)) = 0"
        using le by simp_all
      ultimately show ?thesis by (simp add: L)
    next
      case gt: False
      have eq: "(2::nat) ^ lb = 2 ^ (lb - la) * 2 ^ la"
        using gt by (simp add: power_add [symmetric])
      have "b * 2 ^ la \<le> (a * 2 ^ (lb - la)) * 2 ^ la"
        using True unfolding eq by (simp only: mult.assoc)
      then have "b \<le> a * 2 ^ (lb - la)"
        unfolding mult_le_cancel2 by simp
      moreover have "nat (int la - int lb) = 0" "nat (- (int la - int lb)) = lb - la"
        using gt by simp_all
      ultimately show ?thesis by (simp add: L)
    qed
  next
    case False
    then have L: "ilog2_quot a b = int la - int lb - 1"
      by (simp add: ilog2_quot_def la_def lb_def)
    show ?thesis
    proof (cases "lb \<le> la - 1")
      case le: True
      have "b * 2 ^ (la - 1 - lb) \<le> 2 ^ lb * 2 ^ (la - 1 - lb)"
        using b_hi by simp
      also have "\<dots> = 2 ^ (la - 1)"
        using le by (simp add: power_add [symmetric])
      finally have "b * 2 ^ (la - 1 - lb) \<le> a" using a_lo by simp
      moreover have "nat (int la - int lb - 1) = la - 1 - lb" "nat (- (int la - int lb - 1)) = 0"
        using le la_pos by simp_all
      ultimately show ?thesis by (simp add: L)
    next
      case gt: False
      have "b \<le> 2 ^ lb" using b_hi by simp
      also have "\<dots> = 2 ^ (la - 1) * 2 ^ (lb + 1 - la)"
        using gt la_pos by (simp add: power_add [symmetric])
      also have "\<dots> \<le> a * 2 ^ (lb + 1 - la)"
        using a_lo by simp
      finally have "b \<le> a * 2 ^ (lb + 1 - la)" .
      moreover have "nat (int la - int lb - 1) = 0" "nat (- (int la - int lb - 1)) = lb + 1 - la"
        using gt la_pos by auto
      ultimately show ?thesis by (simp add: L)
    qed
  qed
qed

lemma rne_div_ge: "n div d \<le> rne_div n d"
  by (simp add: rne_div_def Let_def)

lemma rne_div_le: "rne_div n d \<le> n div d + 1"
  by (simp add: rne_div_def Let_def)

lemma rne_div_up: "d < 2 * (n mod d) \<Longrightarrow> rne_div n d = n div d + 1"
  by (simp add: rne_div_def Let_def)

lemma rne_div_exact: "0 < d \<Longrightarrow> rne_div (k * d) d = k"
  by (simp add: rne_div_def Let_def)


lemma ceil_f32_round_exact:
  assumes b: "0 < b" and a: "a < 2 ^ 24"
  shows "ceil_frac (f32_round a b) = (a + b - 1) div b"
proof (cases "a = 0")
  case True
  then show ?thesis using b by (simp add: f32_round_def ceil_frac_def)
next
  case False
  then have a_pos: "0 < a" by simp
  define L where "L = ilog2_quot a b"
  have lower: "b * 2 ^ nat L \<le> a * 2 ^ nat (- L)"
    unfolding L_def by (rule ilog2_quot_lower [OF a_pos b])
  have L23: "L \<le> 23"
  proof (rule ccontr)
    assume "\<not> L \<le> 23"
    then have "24 \<le> nat L" and "nat (- L) = 0" by simp_all
    then have "(2::nat) ^ 24 \<le> 2 ^ nat L"
      using power_increasing [of 24 "nat L" "2::nat"] by simp
    then have "(2::nat) ^ 24 \<le> b * 2 ^ nat L"
      using b by (metis One_nat_def Suc_leI mult.commute mult.right_neutral mult_le_mono order_refl)
    with lower \<open>nat (- L) = 0\<close> a show False by simp
  qed
  define s where "s = nat (23 - L)"
  define P where "P = (2::nat) ^ s"
  have P_pos: "0 < P" by (simp add: P_def)
  define m where "m = rne_div (a * P) b"
  have fr: "f32_round a b = (m, P)"
    using False L23 by (simp add: f32_round_def Let_def L_def [symmetric] m_def P_def s_def)
  define k where "k = a div b"
  define r where "r = a mod b"
  have a_eq: "a = k * b + r" by (simp add: k_def r_def)
  have r_lt: "r < b" using b by (simp add: r_def)
  have aP: "a * P = (k * P) * b + r * P"
    by (simp add: a_eq algebra_simps)
  have cf: "ceil_frac (f32_round a b) = (m + P - 1) div P"
    by (simp add: fr ceil_frac_def)
  show ?thesis
  proof (cases "r = 0")
    case True
    have "m = rne_div (k * P * b + r * P) b"
      unfolding m_def by (simp only: aP)
    also have "\<dots> = rne_div (k * P * b) b"
      using True by simp
    also have "\<dots> = k * P"
      by (rule rne_div_exact [OF b])
    finally have "m = k * P" .
    moreover have "(k * P + P - 1) div P = k"
    proof (rule div_nat_eqI)
      show "P * k \<le> k * P + P - 1" using P_pos by (simp add: algebra_simps)
      show "k * P + P - 1 < P * Suc k" using P_pos by (simp add: algebra_simps)
    qed
    ultimately have "(m + P - 1) div P = k" by simp
    moreover have "(a + b - 1) div b = k"
    proof (rule div_nat_eqI)
      show "b * k \<le> a + b - 1" using b True by (simp add: a_eq algebra_simps)
      show "a + b - 1 < b * Suc k" using b True by (simp add: a_eq algebra_simps)
    qed
    ultimately show ?thesis by (simp add: cf)
  next
    case False
    then have r_pos: "1 \<le> r" by simp
    have upper: "m \<le> (k + 1) * P"
    proof -
      have "a < (k + 1) * b" using a_eq r_lt by simp
      then have "a * P < ((k + 1) * b) * P" using P_pos by simp
      also have "\<dots> = ((k + 1) * P) * b" by (simp add: algebra_simps)
      finally have "(a * P) div b < (k + 1) * P"
        using b by (simp add: div_less_iff_less_mult)
      moreover have "m \<le> (a * P) div b + 1" unfolding m_def by (rule rne_div_le)
      ultimately show ?thesis by simp
    qed
    have lower_m: "k * P < m"
    proof (cases "b \<le> r * P")
      case True
      have "(k * P + 1) * b = k * P * b + b" by (simp add: algebra_simps)
      also have "\<dots> \<le> k * P * b + r * P" using True by simp
      also have "\<dots> = a * P" by (simp only: aP)
      finally have "(k * P + 1) * b \<le> a * P" .
      then have "k * P + 1 \<le> (a * P) div b"
        using b by (simp add: less_eq_div_iff_mult_less_eq)
      moreover have "(a * P) div b \<le> m" unfolding m_def by (rule rne_div_ge)
      ultimately show ?thesis by simp
    next
      case small: False
      then have rP: "r * P < b" by simp
      have dv: "(a * P) div b = k * P" and md: "(a * P) mod b = r * P"
        using rP by (simp_all add: aP)
      have "b < 2 * (r * P)"
      proof (cases "0 \<le> L")
        case True
        then have "nat (- L) = 0" by simp
        with lower a have bl: "b * 2 ^ nat L < 2 ^ 24" by simp
        have "s + nat L = 23" using True L23 by (simp add: s_def)
        then have e24: "(2 * P) * 2 ^ nat L = (2::nat) ^ 24"
          by (simp add: P_def power_add [symmetric])
        from bl have "b * 2 ^ nat L < (2 * P) * 2 ^ nat L"
          by (simp only: e24)
        then have "0 < (2::nat) ^ nat L \<and> b < 2 * P"
          by (simp only: mult_less_cancel2)
        then have "b < 2 * P" by (rule conjunct2)
        also have "2 * P \<le> 2 * (r * P)" using r_pos by simp
        finally show ?thesis .
      next
        case False
        then have nL: "nat L = 0" and nL1: "1 \<le> nat (- L)" by simp_all
        have s_eq: "s = 23 + nat (- L)" using False by (simp add: s_def)
        have "(2::nat) ^ 24 \<le> 2 ^ s"
          using nL1 power_increasing [of 24 s "2::nat"] by (simp add: s_eq)
        then have "a < P" using a by (simp add: P_def)
        also have "P \<le> r * P" using r_pos by simp
        also have "r * P < b" by (rule rP)
        finally have "a < b" .
        then have "r = a" by (simp add: r_def)
        have "(2::nat) ^ nat (- L) \<le> 2 ^ s"
          using power_increasing [of "nat (- L)" s "2::nat"] by (simp add: s_eq)
        then have "a * 2 ^ nat (- L) \<le> a * P" by (simp add: P_def)
        moreover from lower nL have "b \<le> a * 2 ^ nat (- L)" by simp
        ultimately have "b \<le> a * P" by (rule order_trans [rotated])
        with rP \<open>r = a\<close> show ?thesis by simp
      qed
      then have "m = k * P + 1"
        unfolding m_def using rne_div_up [of b "a * P"] by (simp add: dv md)
      then show ?thesis by simp
    qed
    have "(m + P - 1) div P = k + 1"
    proof (rule div_nat_eqI)
      show "P * (k + 1) \<le> m + P - 1" using lower_m by (simp add: algebra_simps)
      show "m + P - 1 < P * Suc (k + 1)" using upper P_pos by (simp add: algebra_simps)
    qed
    moreover have "(a + b - 1) div b = k + 1"
    proof (rule div_nat_eqI)
      show "b * (k + 1) \<le> a + b - 1" using r_pos by (simp add: a_eq algebra_simps)
      show "a + b - 1 < b * Suc (k + 1)" using r_lt by (simp add: a_eq algebra_simps)
    qed
    ultimately show ?thesis by (simp add: cf)
  qed
qed

lemma ilog2_quot_le_23:
  assumes "0 < a" "0 < b" "a < 2 ^ 24"
  shows "ilog2_quot a b \<le> 23"
proof (rule ccontr)
  define L where "L = ilog2_quot a b"
  assume "\<not> ilog2_quot a b \<le> 23"
  then have "24 \<le> nat L" and z: "nat (- L) = 0" by (simp_all add: L_def)
  then have "(2::nat) ^ 24 \<le> 2 ^ nat L"
    using power_increasing [of 24 "nat L" "2::nat"] by simp
  also have "\<dots> \<le> b * 2 ^ nat L" using assms(2) by simp
  also have "\<dots> \<le> a * 2 ^ nat (- L)"
    unfolding L_def by (rule ilog2_quot_lower [OF assms(1,2)])
  finally show False using assms(3) z by simp
qed

lemma f32_of_nat_exact:
  assumes "a < 2 ^ 24"
  shows "f32_of_nat a = a"
proof (cases "a = 0")
  case True
  then show ?thesis by (simp add: f32_of_nat_def f32_round_def)
next
  case False
  then have "ilog2_quot a 1 \<le> 23"
    using ilog2_quot_le_23 [of a 1] assms by simp
  then show ?thesis
    using False by (simp add: f32_of_nat_def f32_round_def Let_def rne_div_def)
qed

lemma ceil_fdiv_exact:
  assumes "unat x < 2 ^ 24" "y \<noteq> 0" "unat y < 2 ^ 24"
  shows "ceil_fdiv x y = (unat x + unat y - 1) div unat y"
proof -
  have "0 < unat y" using assms(2) by (simp add: unat_gt_0)
  then show ?thesis
    using assms by (simp add: ceil_fdiv_def f32_of_nat_exact ceil_f32_round_exact)
qed

text \<open>Beyond that range the quotient is rounded before the ceiling is taken.\<close>

lemmas f32_eval = ceil_fdiv_def ceil_frac_def f32_round_def f32_of_nat_def ilog2_quot_def
  rne_div_def compute_floorlog Let_def

lemma single_precision_ceiling_inexact:
  "ceil_fdiv 33554433 32768 = 1024 \<and> (33554433 + 32768 - 1) div 32768 = (1025 :: nat)"
  by (simp add: f32_eval)

subsection \<open>The work divider\<close>

lemmas layer_eval = total_output_bytes_def output_channel_size_def max_channels_per_iter_def
  SPAD_SIZE_def UMEM_SIZE_def dims_def ext_ex_def

lemma divide_loop_length: "length (divide_loop ext l m n tc) = n"
  by (induction n arbitrary: tc) simp_all

lemma divide_loop_rows_cols:
  "d \<in> set (divide_loop ext l m n tc) \<Longrightarrow>
     rows d = rows (inputs l) \<and> cols d = cols (inputs l)
       \<and> align_pad d = calc_padding ext (cols (inputs l))"
  by (induction n arbitrary: tc) auto

lemma divide_loop_heights:
  assumes "unat tc \<le> n * unat m" "(n - 1) * unat m < unat tc"
  shows "map (\<lambda>d. unat (height d)) (divide_loop ext l m n tc)
           = replicate (n - 1) (unat m) @ [unat tc - (n - 1) * unat m]"
  using assms
proof (induction n arbitrary: tc)
  case 0
  then show ?case by simp
next
  case (Suc n)
  show ?case
  proof (cases "n = 0")
    case True
    with Suc.prems have "tc \<le> m" by (simp add: word_le_nat_alt)
    then show ?thesis using True by (simp add: min_def)
  next
    case False
    with Suc.prems have lt: "unat m < unat tc"
      by (metis One_nat_def Suc_pred diff_Suc_1 le_add1 mult_Suc neq0_conv order_le_less_trans)
    then have mn: "min tc m = m" by (simp add: min_def word_le_nat_alt)
    have sub: "unat (tc - m) = unat tc - unat m"
      using lt by (simp add: unat_sub word_le_nat_alt)
    have p1: "unat (tc - m) \<le> n * unat m" using Suc.prems(1) sub by simp
    have p2: "(n - 1) * unat m < unat (tc - m)"
      using Suc.prems(2) False sub lt by (cases n) (simp_all add: algebra_simps)
    have "map (\<lambda>d. unat (height d)) (divide_loop ext l m n (tc - m))
            = replicate (n - 1) (unat m) @ [unat (tc - m) - (n - 1) * unat m]"
      by (rule Suc.IH [OF p1 p2])
    moreover have "unat (tc - m) - (n - 1) * unat m = unat tc - n * unat m"
      using False sub by (cases n) (simp_all add: algebra_simps)
    moreover have "unat m # replicate (n - 1) (unat m) = replicate n (unat m)"
      using False by (cases n) simp_all
    ultimately show ?thesis by (simp add: mn)
  qed
qed

lemma total_output_bytes_factor:
  "total_output_bytes l = output_channel_size l * height (inputs l)"
  by (simp add: total_output_bytes_def output_channel_size_def algebra_simps)

lemma tiling_nonzero:
  assumes "SPAD_SIZE < total_output_bytes l"
  shows "output_channel_size l \<noteq> 0" and "height (inputs l) \<noteq> 0"
  using assms by (auto simp: total_output_bytes_factor SPAD_SIZE_def)

lemma max_channels_bound: "unat (max_channels_per_iter l) \<le> 131072"
proof -
  have "unat (SPAD_SIZE div output_channel_size l) \<le> unat SPAD_SIZE"
    by (simp add: unat_div div_le_dividend)
  then show ?thesis by (simp add: max_channels_per_iter_def SPAD_SIZE_def)
qed

lemma ceil_div_props:
  fixes c M :: nat
  assumes "0 < c" "0 < M"
  defines "N \<equiv> (c + M - 1) div M"
  shows "c \<le> N * M" and "(N - 1) * M < c" and "N \<le> c" and "0 < N"
proof -
  have N_eq: "N = (c - 1) div M + 1"
  proof -
    have "c + M - 1 = (c - 1) + M" using assms(1) by simp
    then have "(c + M - 1) div M = ((c - 1) + M) div M" by simp
    also have "\<dots> = (c - 1) div M + 1" using assms(2) by simp
    finally show ?thesis by (simp add: N_def)
  qed
  have "N - 1 = (c - 1) div M" by (simp add: N_eq)
  then have "(N - 1) * M \<le> c - 1" by simp
  then show "(N - 1) * M < c" using assms(1) by linarith
  have "c - 1 < ((c - 1) div M + 1) * M"
    using assms(2) by (metis add.commute div_less_iff_less_mult less_add_one)
  then have "c - 1 < N * M" by (simp only: N_eq)
  then show "c \<le> N * M" using assms(1) by linarith
  have "(c - 1) div M \<le> c - 1" by (rule div_le_dividend)
  then have "N \<le> (c - 1) + 1" unfolding N_eq by linarith
  then show "N \<le> c" using assms(1) by simp
  show "0 < N" by (simp add: N_eq)
qed

lemma divide_work_tiled:
  assumes umem: "total_input_bytes ext (ls ! lnum) \<le> UMEM_SIZE"
    and big: "SPAD_SIZE < total_output_bytes (ls ! lnum)"
    and two: "2 \<le> max_channels_per_iter (ls ! lnum)"
    and chans: "unat (height (inputs (ls ! lnum))) < 2 ^ 24"
  defines "c \<equiv> unat (height (inputs (ls ! lnum)))"
    and "M \<equiv> unat (max_channels_per_iter (ls ! lnum))"
  shows "\<exists>cfg. convolution_divide_work ext ls lnum = Inr cfg
           \<and> unat (num_iterations cfg) = (c + M - 1) div M
           \<and> length (iteration cfg) = (c + M - 1) div M
           \<and> map (\<lambda>d. unat (height d)) (iteration cfg)
               = replicate ((c + M - 1) div M - 1) M @ [c - ((c + M - 1) div M - 1) * M]"
proof -
  define l where "l = ls ! lnum"
  define m where "m = max_channels_per_iter l"
  define N where "N = (c + M - 1) div M"
  have ocs: "output_channel_size l \<noteq> 0" and h0: "height (inputs l) \<noteq> 0"
    using tiling_nonzero [of l] big by (simp_all add: l_def)
  have c_pos: "0 < c" using h0 by (simp add: c_def l_def unat_gt_0)
  have m2: "2 \<le> unat m" using two by (simp add: m_def l_def word_le_nat_alt)
  then have M_pos: "0 < M" and m_nz: "m \<noteq> 0" by (auto simp: M_def m_def l_def)
  have M_small: "M < 2 ^ 24"
    using max_channels_bound [of l] by (simp add: M_def l_def)
  have cd: "ceil_fdiv (height (inputs l)) m = N"
    using ceil_fdiv_exact [of "height (inputs l)" m] chans m_nz M_small
    by (simp add: N_def c_def M_def l_def m_def)
  note props = ceil_div_props [OF c_pos M_pos, folded N_def]
  have "N < 2 ^ 32" using props(3) chans by (simp add: c_def)
  then have uN: "unat (word_of_nat N :: u32) = N"
    by (simp add: unat_of_nat)
  define cfg where "cfg = \<lparr>iteration = divide_loop ext l m N (height (inputs l)),
                            num_iterations = (word_of_nat N :: u32)\<rparr>"
  have not_small: "\<not> total_output_bytes l \<le> SPAD_SIZE" using big by (simp add: l_def)
  have not_umem: "\<not> UMEM_SIZE < total_input_bytes ext l" using umem by (simp add: l_def)
  have res: "convolution_divide_work ext ls lnum = Inr cfg"
    using not_small not_umem ocs two
    by (simp add: convolution_divide_work_def Let_def l_def [symmetric] m_def [symmetric] cd uN cfg_def)
  have hs: "map (\<lambda>d. unat (height d)) (iteration cfg)
              = replicate (N - 1) M @ [c - (N - 1) * M]"
    using divide_loop_heights [of "height (inputs l)" N m ext l] props(1,2)
    by (simp add: cfg_def c_def M_def m_def l_def)
  have "unat (num_iterations cfg) = N" by (simp add: cfg_def uN)
  moreover have "length (iteration cfg) = N" by (simp add: cfg_def divide_loop_length)
  ultimately show ?thesis using res hs unfolding N_def by blast
qed

lemma divide_loop_numeral:
  "divide_loop ext l m (numeral k) tc =
     \<lparr>rows = rows (inputs l), cols = cols (inputs l), height = min tc m,
      align_pad = calc_padding ext (cols (inputs l))\<rparr>
     # divide_loop ext l m (pred_numeral k) (tc - m)"
  by (simp add: numeral_eq_Suc)

lemma total_output_bytes_exact:
  assumes "unat (rows (outputs l)) * (unat (cols (outputs l)) + unat (align_pad (outputs l)))
             * unat (height (inputs l)) * 4 < 2 ^ 32"
  shows "unat (total_output_bytes l)
           = unat (rows (outputs l)) * (unat (cols (outputs l)) + unat (align_pad (outputs l)))
               * unat (height (inputs l)) * 4"
proof -
  define n where "n = unat (rows (outputs l)) * (unat (cols (outputs l)) + unat (align_pad (outputs l)))
               * unat (height (inputs l)) * 4"
  have "total_output_bytes l = word_of_nat n"
    by (simp add: total_output_bytes_def n_def)
  then have "unat (total_output_bytes l) = n mod 2 ^ 32"
    by (simp add: unat_of_nat)
  then show ?thesis using assms by (simp add: n_def)
qed

text \<open>
  Claim C1, as amended. For a layer whose single-image input footprint is within the
  unified-buffer capacity, whose unreduced output for one kernel (as the code computes it,
  in unsigned 32-bit arithmetic) exceeds the scratchpad capacity, whose
  \<open>max_channels_per_iter = SPAD_SIZE div output_channel_size\<close> is at least 2 and whose
  channel count is below \<open>2^24\<close>, \<^verbatim>\<open>convolution_divide_work\<close> returns a plan of
  \<open>\<lceil>channels / max_channels_per_iter\<rceil>\<close> iterations; their channel counts sum to the
  channel count of the layer, each is at most \<open>max_channels_per_iter\<close>, and all but the
  last are equal to it.
\<close>

theorem divide_work_tiled_plan:
  assumes "total_input_bytes ext (ls ! lnum) \<le> UMEM_SIZE"
    and "SPAD_SIZE < total_output_bytes (ls ! lnum)"
    and "2 \<le> max_channels_per_iter (ls ! lnum)"
    and "unat (height (inputs (ls ! lnum))) < 2 ^ 24"
  shows "\<exists>cfg. convolution_divide_work ext ls lnum = Inr cfg
           \<and> length (iteration cfg)
               = (unat (height (inputs (ls ! lnum))) + unat (max_channels_per_iter (ls ! lnum)) - 1)
                   div unat (max_channels_per_iter (ls ! lnum))
           \<and> unat (num_iterations cfg) = length (iteration cfg)
           \<and> sum_list (map (\<lambda>d. unat (height d)) (iteration cfg))
               = unat (height (inputs (ls ! lnum)))
           \<and> (\<forall>d \<in> set (iteration cfg).
                 unat (height d) \<le> unat (max_channels_per_iter (ls ! lnum)))
           \<and> (\<forall>i. i + 1 < length (iteration cfg) \<longrightarrow>
                 unat (height (iteration cfg ! i)) = unat (max_channels_per_iter (ls ! lnum)))"
proof -
  define c where "c = unat (height (inputs (ls ! lnum)))"
  define M where "M = unat (max_channels_per_iter (ls ! lnum))"
  define N where "N = (c + M - 1) div M"
  obtain cfg where res: "convolution_divide_work ext ls lnum = Inr cfg"
    and num: "unat (num_iterations cfg) = N"
    and len: "length (iteration cfg) = N"
    and hs: "map (\<lambda>d. unat (height d)) (iteration cfg) = replicate (N - 1) M @ [c - (N - 1) * M]"
    using divide_work_tiled [OF assms] unfolding c_def M_def N_def by blast
  have c_pos: "0 < c"
    using tiling_nonzero(2) [OF assms(2)] by (simp add: c_def unat_gt_0)
  have M_pos: "0 < M"
    using assms(3) by (auto simp: M_def word_le_nat_alt)
  note props = ceil_div_props [OF c_pos M_pos, folded N_def]
  have sum: "sum_list (map (\<lambda>d. unat (height d)) (iteration cfg)) = c"
  proof -
    have "sum_list (replicate (N - 1) M @ [c - (N - 1) * M]) = (N - 1) * M + (c - (N - 1) * M)"
      by (simp add: sum_list_replicate)
    also have "\<dots> = c" using props(2) by simp
    finally show ?thesis by (simp only: hs)
  qed
  have last_le: "c - (N - 1) * M \<le> M"
  proof -
    have "N * M = (N - 1) * M + M" using props(4) by (cases N) simp_all
    with props(1) show ?thesis by simp
  qed
  have bound: "\<forall>d \<in> set (iteration cfg). unat (height d) \<le> M"
  proof
    fix d assume "d \<in> set (iteration cfg)"
    then have "unat (height d) \<in> set (map (\<lambda>d. unat (height d)) (iteration cfg))" by simp
    then have "unat (height d) \<in> set (replicate (N - 1) M @ [c - (N - 1) * M])"
      by (simp only: hs)
    then show "unat (height d) \<le> M" using last_le by (auto split: if_splits)
  qed
  have full: "\<forall>i. i + 1 < length (iteration cfg) \<longrightarrow> unat (height (iteration cfg ! i)) = M"
  proof (intro allI impI)
    fix i assume i: "i + 1 < length (iteration cfg)"
    then have "unat (height (iteration cfg ! i)) = map (\<lambda>d. unat (height d)) (iteration cfg) ! i"
      by simp
    also have "\<dots> = (replicate (N - 1) M @ [c - (N - 1) * M]) ! i" by (simp only: hs)
    also have "\<dots> = M"
    proof -
      have "i < N - 1" using i len by simp
      then show ?thesis by (simp add: nth_append)
    qed
    finally show "unat (height (iteration cfg ! i)) = M" .
  qed
  show ?thesis
    using res num len sum bound full unfolding N_def c_def M_def by auto
qed

theorem divide_work_tiled_plan_witness:
  "\<exists>cfg. convolution_divide_work ext_ex [conv_tiled] 0 = Inr cfg
     \<and> length (iteration cfg) = 3
     \<and> unat (num_iterations cfg) = length (iteration cfg)
     \<and> sum_list (map (\<lambda>d. unat (height d)) (iteration cfg)) = 6
     \<and> (\<forall>d \<in> set (iteration cfg). unat (height d) \<le> 2)
     \<and> (\<forall>i. i + 1 < length (iteration cfg) \<longrightarrow> unat (height (iteration cfg ! i)) = 2)"
  using divide_work_tiled_plan [of ext_ex "[conv_tiled]" 0]
  by (simp add: conv_tiled_def layer_eval)

text \<open>
  Claim C1 as stated leaves out the check of the input footprint: the layer
  \<open>conv_large_image\<close> has an unreduced output larger than a scratchpad and
  \<open>max_channels_per_iter = 2\<close>, and the run aborts instead of returning a plan.
\<close>

theorem divide_work_umem_counterexample:
  "convolution_divide_work ext_ex [conv_large_image] 0 = Inl Unsupported_input_size
     \<and> SPAD_SIZE < total_output_bytes conv_large_image
     \<and> 2 \<le> max_channels_per_iter conv_large_image"
  by (simp add: convolution_divide_work_def conv_large_image_def layer_eval)

text \<open>
  Claim C6. For a layer whose single-image input footprint is within the unified-buffer
  capacity and whose unreduced output for one kernel, \<open>rows * (cols + pad) * channels * 4\<close>
  bytes, is at most the scratchpad capacity, \<^verbatim>\<open>convolution_divide_work\<close> returns
  exactly one iteration; its channel count, rows and cols are those of the input of the
  layer. (By \<open>total_output_bytes_exact\<close> the unsigned 32-bit value that the code
  compares is the footprint itself whenever that is below \<open>2^32\<close>.)
\<close>

theorem divide_work_single_iteration:
  assumes "total_input_bytes ext (ls ! lnum) \<le> UMEM_SIZE"
    and "total_output_bytes (ls ! lnum) \<le> SPAD_SIZE"
  shows "\<exists>d. convolution_divide_work ext ls lnum = Inr \<lparr>iteration = [d], num_iterations = 1\<rparr>
           \<and> height d = height (inputs (ls ! lnum))
           \<and> rows d = rows (inputs (ls ! lnum))
           \<and> cols d = cols (inputs (ls ! lnum))"
  using assms by (simp add: convolution_divide_work_def Let_def not_less [symmetric])

theorem divide_work_single_iteration_witness:
  "\<exists>d. convolution_divide_work ext_ex [conv_small] 0 = Inr \<lparr>iteration = [d], num_iterations = 1\<rparr>
     \<and> height d = 4 \<and> rows d = 10 \<and> cols d = 10"
  using divide_work_single_iteration [of ext_ex "[conv_small]" 0]
  by (simp add: conv_small_def layer_eval)

lemma channel_size_exact:
  assumes "channel_footprint l < 2 ^ 32"
  shows "unat (output_channel_size l) = channel_footprint l"
    and "unat (max_channels_per_iter l) = unat SPAD_SIZE div channel_footprint l"
proof -
  have "output_channel_size l = word_of_nat (channel_footprint l)"
    by (simp add: output_channel_size_def channel_footprint_def)
  then have "unat (output_channel_size l) = channel_footprint l mod 2 ^ 32"
    by (simp add: unat_of_nat)
  then show a: "unat (output_channel_size l) = channel_footprint l"
    using assms by simp
  show "unat (max_channels_per_iter l) = unat SPAD_SIZE div channel_footprint l"
    by (simp add: max_channels_per_iter_def unat_div a)
qed

lemma output_bytes_exact:
  assumes "output_footprint l < 2 ^ 32"
  shows "unat (total_output_bytes l) = output_footprint l"
  using total_output_bytes_exact [of l] assms by (simp add: output_footprint_def)

text \<open>
  Claim C3, as amended. On the values that the code computes in unsigned 32-bit arithmetic,
  \<^verbatim>\<open>convolution_divide_work\<close> aborts exactly when the single-image input footprint
  exceeds the unified-buffer capacity, or the unreduced output of one kernel exceeds a
  scratchpad and \<open>max_channels_per_iter < 2\<close>. The first check comes first: it alone
  decides the error. In every other case a plan is returned. The computed values are the
  footprints of the specification whenever those are below \<open>2^32\<close> bytes. A run that
  returns a plan leaves the array of layers and the local arrays as they were and calls
  no external operation; without debugging output it leaves the whole state as it was.
  (The division that computes \<open>max_channels_per_iter\<close> never divides by zero.)
\<close>

theorem divide_work_fails_iff:
  "((\<exists>e. convolution_divide_work ext ls lnum = Inl e) \<longleftrightarrow>
      UMEM_SIZE < total_input_bytes ext (ls ! lnum)
      \<or> (SPAD_SIZE < total_output_bytes (ls ! lnum) \<and> max_channels_per_iter (ls ! lnum) < 2))
   \<and> (UMEM_SIZE < total_input_bytes ext (ls ! lnum) \<longrightarrow>
        convolution_divide_work ext ls lnum = Inl Unsupported_input_size)
   \<and> (\<not> UMEM_SIZE < total_input_bytes ext (ls ! lnum)
        \<and> SPAD_SIZE < total_output_bytes (ls ! lnum) \<and> max_channels_per_iter (ls ! lnum) < 2 \<longrightarrow>
        convolution_divide_work ext ls lnum = Inl Tiled_input_unsupported)
   \<and> (\<not> UMEM_SIZE < total_input_bytes ext (ls ! lnum)
        \<and> \<not> (SPAD_SIZE < total_output_bytes (ls ! lnum) \<and> max_channels_per_iter (ls ! lnum) < 2) \<longrightarrow>
        (\<exists>cfg. convolution_divide_work ext ls lnum = Inr cfg))
   \<and> (output_footprint (ls ! lnum) < 2 ^ 32 \<longrightarrow>
        unat (total_output_bytes (ls ! lnum)) = output_footprint (ls ! lnum))
   \<and> (channel_footprint (ls ! lnum) < 2 ^ 32 \<longrightarrow>
        unat (max_channels_per_iter (ls ! lnum))
          = unat SPAD_SIZE div channel_footprint (ls ! lnum))
   \<and> fst (convolution_divide_work_run ext debug (s\<lparr>layers_array := ls\<rparr>) lnum)
       = convolution_divide_work ext ls lnum
   \<and> (\<forall>cfg. convolution_divide_work ext ls lnum = Inr cfg \<longrightarrow>
         layers_array (snd (convolution_divide_work_run ext debug (s\<lparr>layers_array := ls\<rparr>) lnum))
           = ls
         \<and> local_arrays (snd (convolution_divide_work_run ext debug (s\<lparr>layers_array := ls\<rparr>) lnum))
             = local_arrays s
         \<and> external_calls (snd (convolution_divide_work_run ext debug (s\<lparr>layers_array := ls\<rparr>) lnum))
             = external_calls s
         \<and> (\<not> debug \<longrightarrow>
              snd (convolution_divide_work_run ext debug (s\<lparr>layers_array := ls\<rparr>) lnum)
                = s\<lparr>layers_array := ls\<rparr>))"
proof -
  have nz: "output_channel_size (ls ! lnum) \<noteq> 0" if "\<not> total_output_bytes (ls ! lnum) \<le> SPAD_SIZE"
    using tiling_nonzero(1) [of "ls ! lnum"] that by simp
  have a: "((\<exists>e. convolution_divide_work ext ls lnum = Inl e) \<longleftrightarrow>
      UMEM_SIZE < total_input_bytes ext (ls ! lnum)
      \<or> (SPAD_SIZE < total_output_bytes (ls ! lnum) \<and> max_channels_per_iter (ls ! lnum) < 2))
   \<and> (UMEM_SIZE < total_input_bytes ext (ls ! lnum) \<longrightarrow>
        convolution_divide_work ext ls lnum = Inl Unsupported_input_size)
   \<and> (\<not> UMEM_SIZE < total_input_bytes ext (ls ! lnum)
        \<and> SPAD_SIZE < total_output_bytes (ls ! lnum) \<and> max_channels_per_iter (ls ! lnum) < 2 \<longrightarrow>
        convolution_divide_work ext ls lnum = Inl Tiled_input_unsupported)
   \<and> (\<not> UMEM_SIZE < total_input_bytes ext (ls ! lnum)
        \<and> \<not> (SPAD_SIZE < total_output_bytes (ls ! lnum) \<and> max_channels_per_iter (ls ! lnum) < 2) \<longrightarrow>
        (\<exists>cfg. convolution_divide_work ext ls lnum = Inr cfg))"
    using nz by (auto simp: convolution_divide_work_def Let_def not_le not_less)
  have b: "output_footprint (ls ! lnum) < 2 ^ 32 \<longrightarrow>
        unat (total_output_bytes (ls ! lnum)) = output_footprint (ls ! lnum)"
    using output_bytes_exact [of "ls ! lnum"] by simp
  have c: "channel_footprint (ls ! lnum) < 2 ^ 32 \<longrightarrow>
        unat (max_channels_per_iter (ls ! lnum))
          = unat SPAD_SIZE div channel_footprint (ls ! lnum)"
    using channel_size_exact(2) [of "ls ! lnum"] by simp
  have d: "fst (convolution_divide_work_run ext debug (s\<lparr>layers_array := ls\<rparr>) lnum)
       = convolution_divide_work ext ls lnum"
    by (simp add: convolution_divide_work_run_def convolution_divide_work_def Let_def)
  have e: "\<forall>cfg. convolution_divide_work ext ls lnum = Inr cfg \<longrightarrow>
         layers_array (snd (convolution_divide_work_run ext debug (s\<lparr>layers_array := ls\<rparr>) lnum))
           = ls
         \<and> local_arrays (snd (convolution_divide_work_run ext debug (s\<lparr>layers_array := ls\<rparr>) lnum))
             = local_arrays s
         \<and> external_calls (snd (convolution_divide_work_run ext debug (s\<lparr>layers_array := ls\<rparr>) lnum))
             = external_calls s
         \<and> (\<not> debug \<longrightarrow>
              snd (convolution_divide_work_run ext debug (s\<lparr>layers_array := ls\<rparr>) lnum)
                = s\<lparr>layers_array := ls\<rparr>)"
  proof (intro allI impI)
    fix cfg assume "convolution_divide_work ext ls lnum = Inr cfg"
    with d have "fst (convolution_divide_work_run ext debug (s\<lparr>layers_array := ls\<rparr>) lnum) = Inr cfg"
      by simp
    then have st: "snd (convolution_divide_work_run ext debug (s\<lparr>layers_array := ls\<rparr>) lnum)
           = (if debug
              then s\<lparr>layers_array := ls,
                     printed := printed s
                       @ [if total_output_bytes (ls ! lnum) \<le> SPAD_SIZE
                          then ''Entire input problem fits into the local memory.''
                          else ''We can fit at least 2 unreduced input channels at once.'']\<rparr>
              else s\<lparr>layers_array := ls\<rparr>)"
      by (auto simp: convolution_divide_work_run_def Let_def PRINT_MSG_def split: if_splits)
    show "layers_array (snd (convolution_divide_work_run ext debug (s\<lparr>layers_array := ls\<rparr>) lnum))
           = ls
         \<and> local_arrays (snd (convolution_divide_work_run ext debug (s\<lparr>layers_array := ls\<rparr>) lnum))
             = local_arrays s
         \<and> external_calls (snd (convolution_divide_work_run ext debug (s\<lparr>layers_array := ls\<rparr>) lnum))
             = external_calls s
         \<and> (\<not> debug \<longrightarrow>
              snd (convolution_divide_work_run ext debug (s\<lparr>layers_array := ls\<rparr>) lnum)
                = s\<lparr>layers_array := ls\<rparr>)"
      unfolding st by simp
  qed
  note a1 = a [THEN conjunct1]
    and a2 = a [THEN conjunct2, THEN conjunct1]
    and a3 = a [THEN conjunct2, THEN conjunct2, THEN conjunct1]
    and a4 = a [THEN conjunct2, THEN conjunct2, THEN conjunct2]
  show ?thesis
    by (rule conjI [OF a1 conjI [OF a2 conjI [OF a3 conjI [OF a4
          conjI [OF b conjI [OF c conjI [OF d e]]]]]]])
qed

theorem divide_work_fails_iff_witness:
  "convolution_divide_work ext_ex [conv_large_image] 0 = Inl Unsupported_input_size
   \<and> convolution_divide_work ext_ex [conv_wide] 0 = Inl Tiled_input_unsupported
   \<and> (\<exists>cfg. convolution_divide_work ext_ex [conv_tiled] 0 = Inr cfg
         \<and> convolution_divide_work_run ext_ex False
             \<lparr>layers_array = [conv_tiled], local_arrays = g_ex, printed = [],
              external_calls = []\<rparr> 0
           = (Inr cfg, \<lparr>layers_array = [conv_tiled], local_arrays = g_ex, printed = [],
                        external_calls = []\<rparr>))
   \<and> unat (total_output_bytes conv_tiled) = output_footprint conv_tiled
   \<and> unat (max_channels_per_iter conv_tiled) = unat SPAD_SIZE div channel_footprint conv_tiled"
proof -
  define s where "s = \<lparr>layers_array = [conv_tiled], local_arrays = g_ex, printed = [],
                        external_calls = ([] :: event list)\<rparr>"
  have s: "s\<lparr>layers_array := [conv_tiled]\<rparr> = s" by (simp add: s_def)
  have f: "output_footprint ([conv_tiled] ! 0) < 2 ^ 32" "channel_footprint ([conv_tiled] ! 0) < 2 ^ 32"
    by (simp_all add: output_footprint_def channel_footprint_def conv_tiled_def dims_def)
  have 1: "convolution_divide_work ext_ex [conv_large_image] 0 = Inl Unsupported_input_size"
    using divide_work_fails_iff [of ext_ex "[conv_large_image]" 0]
    by (simp add: conv_large_image_def layer_eval)
  have 2: "convolution_divide_work ext_ex [conv_wide] 0 = Inl Tiled_input_unsupported"
    using divide_work_fails_iff [of ext_ex "[conv_wide]" 0]
    by (simp add: conv_wide_def layer_eval)
  note t = divide_work_fails_iff [of ext_ex "[conv_tiled]" 0 False s]
  have "\<exists>cfg. convolution_divide_work ext_ex [conv_tiled] 0 = Inr cfg"
    using t by (simp add: conv_tiled_def layer_eval)
  then obtain cfg where cfg: "convolution_divide_work ext_ex [conv_tiled] 0 = Inr cfg" ..
  have "fst (convolution_divide_work_run ext_ex False s 0) = Inr cfg"
    "snd (convolution_divide_work_run ext_ex False s 0) = s"
    using t cfg unfolding s by simp_all
  then have 3: "convolution_divide_work_run ext_ex False s 0 = (Inr cfg, s)"
    by (simp add: prod_eq_iff)
  have 4: "unat (total_output_bytes conv_tiled) = output_footprint conv_tiled"
    "unat (max_channels_per_iter conv_tiled) = unat SPAD_SIZE div channel_footprint conv_tiled"
    using t f by simp_all
  from 1 2 cfg 3 4 show ?thesis unfolding s_def by blast
qed

text \<open>
  Claim C3 as stated is about the footprints themselves. For the layer description
  \<open>conv_huge_output\<close> the input of one image takes 256 bytes, the unreduced output of one
  kernel takes \<open>2^32\<close> bytes, more than a scratchpad, and not even one channel of it
  fits (\<open>\<lfloor>131072 / 2^32\<rfloor> = 0\<close>); the 32-bit product wraps around to 0 and a plan of
  one iteration is returned.
\<close>

theorem divide_work_wrap_counterexample:
  "convolution_divide_work ext_ex [conv_huge_output] 0
     = Inr \<lparr>iteration = [dims 8 8 1 0], num_iterations = 1\<rparr>
   \<and> input_footprint conv_huge_output \<le> unat UMEM_SIZE
   \<and> unat SPAD_SIZE < output_footprint conv_huge_output
   \<and> unat SPAD_SIZE div channel_footprint conv_huge_output < 2"
  by (simp add: convolution_divide_work_def conv_huge_output_def layer_eval
      input_footprint_def output_footprint_def channel_footprint_def)

subsection \<open>The DMA requirements\<close>

lemma dma_flags_commute:
  "(l :: layer_t)\<lparr>needs_output_dma_store := a, needs_input_dma_load := b\<rparr>
     = l\<lparr>needs_input_dma_load := b, needs_output_dma_store := a\<rparr>"
  by (cases l) simp

lemma dma_step_length: "length (dma_step d ls k) = length ls"
  by (simp add: dma_step_def Let_def)

lemma dma_loop_invariant:
  assumes "k \<le> nat d" "nat d \<le> length ls"
  shows "length (foldl (dma_step d) ls [0..<k]) = length ls
         \<and> (\<forall>j<length ls. foldl (dma_step d) ls [0..<k] ! j =
               (if j < k
                then (ls ! j)\<lparr>needs_input_dma_load := (0 < j \<and> needs_output_rule d ls (j - 1)),
                              needs_output_dma_store := needs_output_rule d ls j\<rparr>
                else ls ! j))"
  using assms
proof (induction k)
  case 0
  then show ?case by simp
next
  case (Suc k)
  define ls' where "ls' = foldl (dma_step d) ls [0..<k]"
  have k_lt: "k < nat d" and k_len: "k < length ls" using Suc.prems by simp_all
  have len: "length ls' = length ls"
    and nth: "\<And>j. j < length ls \<Longrightarrow> ls' ! j =
               (if j < k
                then (ls ! j)\<lparr>needs_input_dma_load := (0 < j \<and> needs_output_rule d ls (j - 1)),
                              needs_output_dma_store := needs_output_rule d ls j\<rparr>
                else ls ! j)"
    using Suc.IH Suc.prems unfolding ls'_def by simp_all
  have step: "foldl (dma_step d) ls [0..<Suc k] = dma_step d ls' k"
    by (simp add: ls'_def)
  have at_k: "ls' ! k = ls ! k" using nth [OF k_len] by simp
  have upd: "dma_step d ls' k =
               ls'[k := (ls ! k)\<lparr>needs_input_dma_load := (0 < k \<and> needs_output_rule d ls (k - 1)),
                                 needs_output_dma_store := needs_output_rule d ls k\<rparr>]"
  proof (cases "k = 0")
    case True
    then show ?thesis
      using at_k by (simp add: dma_step_def needs_output_rule_def)
  next
    case False
    define store where "store =
       (int k = d - 1 \<or> activation (ls ! k) = SIGMOID \<or> type (ls ! k) = POOLING
        \<or> type (ls ! k) = CONV \<or> input_preprocessing (ls ! k) = FLATTEN
        \<or> type (ls' ! Suc k) = POOLING \<or> type (ls' ! Suc k) = SOFTMAX)"
    have next_same: "ls' ! (k + 1) = ls ! (k + 1)" if "int k \<noteq> d - 1"
    proof -
      have "k + 1 < nat d" using that k_lt by linarith
      then have "k + 1 < length ls" using Suc.prems(2) by simp
      then show ?thesis using nth [of "k + 1"] by simp
    qed
    have store_eq: "store = needs_output_rule d ls k"
      using False next_same by (auto simp: store_def needs_output_rule_def)
    have prev: "needs_output_dma_store (ls' ! (k - 1)) = needs_output_rule d ls (k - 1)"
      using nth [of "k - 1"] False k_len by simp
    show ?thesis
      using False k_len len prev at_k
      by (simp add: dma_step_def Let_def store_eq [unfolded store_def] nth_list_update
          dma_flags_commute)
  qed
  show ?case
  proof (intro conjI allI impI)
    show "length (foldl (dma_step d) ls [0..<Suc k]) = length ls"
      unfolding step by (simp add: dma_step_length len)
  next
    fix j assume j: "j < length ls"
    show "foldl (dma_step d) ls [0..<Suc k] ! j =
            (if j < Suc k
             then (ls ! j)\<lparr>needs_input_dma_load := (0 < j \<and> needs_output_rule d ls (j - 1)),
                           needs_output_dma_store := needs_output_rule d ls j\<rparr>
             else ls ! j)"
    proof (cases "j = k")
      case True
      then show ?thesis
        unfolding step upd using k_len len by simp
    next
      case False
      then have "dma_step d ls' k ! j = ls' ! j"
        unfolding upd by simp
      then show ?thesis
        unfolding step using nth [OF j] False by (simp add: less_Suc_eq)
    qed
  qed
qed

lemma set_dma_requirements_nth:
  assumes "nat (depth n) \<le> length (layers n)" "j < nat (depth n)"
  shows "layers (set_dma_requirements n) ! j =
           (layers n ! j)\<lparr>needs_input_dma_load :=
                            (0 < j \<and> needs_output_rule (depth n) (layers n) (j - 1)),
                          needs_output_dma_store := needs_output_rule (depth n) (layers n) j\<rparr>"
  using dma_loop_invariant [of "nat (depth n)" "depth n" "layers n"] assms
  by (simp add: set_dma_requirements_def)

text \<open>
  Claim C2. After \<^verbatim>\<open>set_dma_requirements\<close> on a network of depth at least 1 (whose
  array holds that many layers): layer 0 needs no input transfer and needs an output
  transfer; every later layer needs an input transfer exactly when the layer before it
  needs an output transfer; the last layer needs an output transfer.
\<close>

theorem set_dma_requirements_chain:
  assumes "1 \<le> depth n" and "nat (depth n) \<le> length (layers n)"
  shows "\<not> needs_input_dma_load (layers (set_dma_requirements n) ! 0)
         \<and> needs_output_dma_store (layers (set_dma_requirements n) ! 0)
         \<and> (\<forall>i. 0 < i \<and> i < nat (depth n) \<longrightarrow>
               needs_input_dma_load (layers (set_dma_requirements n) ! i)
                 = needs_output_dma_store (layers (set_dma_requirements n) ! (i - 1)))
         \<and> needs_output_dma_store (layers (set_dma_requirements n) ! (nat (depth n) - 1))"
proof -
  have zero: "0 < nat (depth n)" using assms(1) by simp
  have last: "needs_output_rule (depth n) (layers n) (nat (depth n) - 1)"
    using assms(1) by (simp add: needs_output_rule_def int_ops)
  have l0: "needs_output_rule (depth n) (layers n) 0"
    by (simp add: needs_output_rule_def)
  show ?thesis
    using zero last l0
    by (auto simp: set_dma_requirements_nth [OF assms(2)])
qed

theorem set_dma_requirements_chain_witness:
  "(1::int) \<le> 3 \<and> nat 3 \<le> length [conv_small, pool_ex, fc_resident]
   \<and> \<not> needs_input_dma_load
         (layers (set_dma_requirements \<lparr>layers = [conv_small, pool_ex, fc_resident], depth = 3\<rparr>) ! 0)
   \<and> needs_output_dma_store
         (layers (set_dma_requirements \<lparr>layers = [conv_small, pool_ex, fc_resident], depth = 3\<rparr>) ! 0)
   \<and> needs_output_dma_store
         (layers (set_dma_requirements \<lparr>layers = [conv_small, pool_ex, fc_resident], depth = 3\<rparr>) ! 2)"
  using set_dma_requirements_chain [of "\<lparr>layers = [conv_small, pool_ex, fc_resident], depth = 3\<rparr>"]
  by simp

lemma set_dma_requirements_length:
  assumes "nat (depth n) \<le> length (layers n)"
  shows "length (layers (set_dma_requirements n)) = length (layers n)"
  using dma_loop_invariant [of "nat (depth n)" "depth n" "layers n"] assms
  by (simp add: set_dma_requirements_def)

text \<open>
  Claim C5. For a layer \<open>i\<close> with \<open>0 < i < depth - 1\<close>, \<^verbatim>\<open>set_dma_requirements\<close>
  sets the output-transfer flag exactly when the activation is a sigmoid, the layer is a
  pooling or a convolution layer, its input is flattened, or the next layer is a pooling
  or a softmax layer. A network conv, pooling, inner product of depth 3 gets the output
  flags true, true, true and the input flags false, true, true.
\<close>

theorem set_dma_requirements_rule:
  "(nat (depth n) \<le> length (layers n) \<and> 0 < i \<and> int i < depth n - 1 \<longrightarrow>
      needs_output_dma_store (layers (set_dma_requirements n) ! i)
        = (activation (layers n ! i) = SIGMOID
           \<or> type (layers n ! i) = POOLING \<or> type (layers n ! i) = CONV
           \<or> input_preprocessing (layers n ! i) = FLATTEN
           \<or> type (layers n ! (i + 1)) = POOLING \<or> type (layers n ! (i + 1)) = SOFTMAX))
   \<and> (type l0 = CONV \<and> type l1 = POOLING \<and> type l2 = FC \<longrightarrow>
        map needs_output_dma_store
            (layers (set_dma_requirements \<lparr>layers = [l0, l1, l2], depth = 3\<rparr>))
          = [True, True, True]
        \<and> map needs_input_dma_load
              (layers (set_dma_requirements \<lparr>layers = [l0, l1, l2], depth = 3\<rparr>))
            = [False, True, True])"
proof (intro conjI impI)
  assume a: "nat (depth n) \<le> length (layers n) \<and> 0 < i \<and> int i < depth n - 1"
  then have "i < nat (depth n)" by linarith
  then show "needs_output_dma_store (layers (set_dma_requirements n) ! i)
        = (activation (layers n ! i) = SIGMOID
           \<or> type (layers n ! i) = POOLING \<or> type (layers n ! i) = CONV
           \<or> input_preprocessing (layers n ! i) = FLATTEN
           \<or> type (layers n ! (i + 1)) = POOLING \<or> type (layers n ! (i + 1)) = SOFTMAX)"
    using a by (simp add: set_dma_requirements_nth needs_output_rule_def)
next
  assume t: "type l0 = CONV \<and> type l1 = POOLING \<and> type l2 = FC"
  define n3 where "n3 = \<lparr>layers = [l0, l1, l2], depth = 3\<rparr>"
  have d: "nat (depth n3) \<le> length (layers n3)" by (simp add: n3_def)
  have len: "length (layers (set_dma_requirements n3)) = 3"
    using set_dma_requirements_length [OF d] by (simp add: n3_def)
  have nth: "\<And>j. j < 3 \<Longrightarrow> layers (set_dma_requirements n3) ! j =
           (layers n3 ! j)\<lparr>needs_input_dma_load :=
                            (0 < j \<and> needs_output_rule (depth n3) (layers n3) (j - 1)),
                          needs_output_dma_store := needs_output_rule (depth n3) (layers n3) j\<rparr>"
    using set_dma_requirements_nth [OF d] by (simp add: n3_def)
  have r0: "needs_output_rule 3 [l0, l1, l2] 0"
    and r1: "needs_output_rule 3 [l0, l1, l2] 1"
    and r2: "needs_output_rule 3 [l0, l1, l2] 2"
    using t by (simp_all add: needs_output_rule_def)
  show "map needs_output_dma_store (layers (set_dma_requirements n3)) = [True, True, True]"
    using len nth [of 0] nth [of 1] nth [of 2] r0 r1 r2
    by (auto simp: list_eq_iff_nth_eq less_Suc_eq numeral_3_eq_3 numeral_2_eq_2 n3_def)
  show "map needs_input_dma_load (layers (set_dma_requirements n3)) = [False, True, True]"
    using len nth [of 0] nth [of 1] nth [of 2] r0 r1 r2
    by (auto simp: list_eq_iff_nth_eq less_Suc_eq numeral_3_eq_3 numeral_2_eq_2 n3_def)
qed

theorem set_dma_requirements_rule_witness:
  "\<not> needs_output_dma_store
       (layers (set_dma_requirements
          \<lparr>layers = [conv_small, fc_resident, fc_resident, fc_resident], depth = 4\<rparr>) ! 1)
   \<and> needs_output_dma_store
       (layers (set_dma_requirements
          \<lparr>layers = [conv_small, fc_resident, pool_ex, fc_resident], depth = 4\<rparr>) ! 1)
   \<and> map needs_output_dma_store
         (layers (set_dma_requirements \<lparr>layers = [conv_small, pool_ex, fc_resident], depth = 3\<rparr>))
       = [True, True, True]
   \<and> map needs_input_dma_load
         (layers (set_dma_requirements \<lparr>layers = [conv_small, pool_ex, fc_resident], depth = 3\<rparr>))
       = [False, True, True]"
  using set_dma_requirements_rule
          [of "\<lparr>layers = [conv_small, fc_resident, fc_resident, fc_resident], depth = 4\<rparr>" 1
              conv_small pool_ex fc_resident]
        set_dma_requirements_rule
          [of "\<lparr>layers = [conv_small, fc_resident, pool_ex, fc_resident], depth = 4\<rparr>" 1
              conv_small pool_ex fc_resident]
  by (simp add: conv_small_def fc_resident_def pool_ex_def)

subsection \<open>Inner-product layers\<close>

lemma scratchpads_append: "scratchpads (xs @ ys) = scratchpads xs @ scratchpads ys"
  by (induction xs rule: scratchpads.induct) simp_all

lemma scratchpads_inner_product_layer_hw:
  "scratchpads (inner_product_layer_hw ext ha hw la lw ls lnum hr lr) = []"
  by (simp add: inner_product_layer_hw_def Let_def)

lemma inner_product_layer_scratchpads:
  assumes "spad0 g \<noteq> spad1 g" "spad0 g \<noteq> NULL" "spad1 g \<noteq> NULL"
    and "cur = NULL \<or> cur = spad0 g \<or> cur = spad1 g"
    and "inner_product_layer ext g cur ha hw ls lnum hr = (cur', evs, res)"
  shows "cur' = (if cur = spad1 g then spad0 g else spad1 g)
         \<and> scratchpads evs = [(if cur = spad1 g then spad1 g else spad0 g, cur')]
         \<and> res = hr"
  using assms
  by (auto simp: inner_product_layer_def Let_def scratchpads_inner_product_layer_hw
      split: if_splits)

text \<open>The expected sequence: call number \<open>k\<close> (from 0) writes \<open>spad1\<close> when \<open>k\<close> is even.\<close>

lemma inner_product_calls_alternate:
  assumes "spad0 g \<noteq> spad1 g" "spad0 g \<noteq> NULL" "spad1 g \<noteq> NULL"
    and "cur = NULL \<or> cur = spad0 g \<or> cur = spad1 g"
  shows "scratchpads (snd (inner_product_calls ext g cur cs))
           = map (\<lambda>k. if even k = (cur \<noteq> spad1 g) then (spad0 g, spad1 g) else (spad1 g, spad0 g))
               [0..<length cs]"
  using assms(4)
proof (induction cs arbitrary: cur)
  case Nil
  then show ?case by simp
next
  case (Cons c cs)
  obtain ha hw ls lnum hr where c: "c = (ha, hw, ls, lnum, hr)" by (cases c) auto
  obtain cur' evs res where ip: "inner_product_layer ext g cur ha hw ls lnum hr = (cur', evs, res)"
    by (cases "inner_product_layer ext g cur ha hw ls lnum hr") auto
  note step = inner_product_layer_scratchpads [OF assms(1-3) Cons.prems ip]
  have cur'_ok: "cur' = NULL \<or> cur' = spad0 g \<or> cur' = spad1 g"
    using step by auto
  have flip: "(cur' \<noteq> spad1 g) = (cur = spad1 g)"
    using step assms(1) by auto
  have "scratchpads (snd (inner_product_calls ext g cur (c # cs)))
          = scratchpads evs @ scratchpads (snd (inner_product_calls ext g cur' cs))"
    by (simp add: c ip scratchpads_append split: prod.splits)
  also have "\<dots> = (if cur = spad1 g then (spad1 g, spad0 g) else (spad0 g, spad1 g))
               # map (\<lambda>k. if even k = (cur' \<noteq> spad1 g) then (spad0 g, spad1 g) else (spad1 g, spad0 g))
                   [0..<length cs]"
    using step Cons.IH [OF cur'_ok] by auto
  also have "\<dots> = map (\<lambda>k. if even k = (cur \<noteq> spad1 g) then (spad0 g, spad1 g) else (spad1 g, spad0 g))
                   [0..<length (c # cs)]"
    by (simp add: upt_conv_Cons map_Suc_upt [symmetric] flip del: upt_Suc)
  finally show ?case .
qed

lemma inner_product_single_pass:
  "inner_product_passes ext cur [(g, cs)] = inner_product_calls ext g cur cs"
  by (simp split: prod.splits)

lemma inner_product_stale_state:
  assumes "cur \<noteq> NULL" "cur \<noteq> spad0 g" "cur \<noteq> spad1 g"
  shows "inner_product_calls ext g cur cs
           = (cur, snd (inner_product_calls ext g cur cs))
         \<and> scratchpads (snd (inner_product_calls ext g cur cs))
             = replicate (length cs) (spad0 g, spad1 g)"
proof (induction cs)
  case Nil
  then show ?case by simp
next
  case (Cons c cs)
  obtain ha hw ls lnum hr where c: "c = (ha, hw, ls, lnum, hr)" by (cases c) auto
  have ip: "inner_product_layer ext g cur ha hw ls lnum hr
              = (cur,
                 Invoke_inner_product_layer_hw ha
                     (ptr_add hw (get_weights_loc_for_layer ext ls lnum)) (spad0 g) (umem g)
                     lnum hr (spad1 g)
                   # inner_product_layer_hw ext ha
                       (ptr_add hw (get_weights_loc_for_layer ext ls lnum)) (spad0 g) (umem g)
                       ls lnum hr (spad1 g),
                 hr)"
    using assms by (simp add: inner_product_layer_def Let_def)
  obtain evs' where rest: "inner_product_calls ext g cur cs = (cur, evs')"
    and sp: "scratchpads evs' = replicate (length cs) (spad0 g, spad1 g)"
    using Cons.IH by (cases "inner_product_calls ext g cur cs") auto
  show ?case
    by (simp add: c ip rest sp scratchpads_append scratchpads_inner_product_layer_hw)
qed

text \<open>
  Claim C8, as amended. Over successive calls of \<^verbatim>\<open>inner_product_layer\<close> within one
  forward pass, that is with one allocation of the two scratchpads, both allocated and
  distinct, and the static variable unset (\<open>NULL\<close>) at the first call, the result
  scratchpad alternates: the first call writes \<open>spad1\<close> (and reads its activations from
  \<open>spad0\<close>), the second writes \<open>spad0\<close>, and so on, whatever the arguments of the
  calls; in every call the activation scratchpad and the result scratchpad differ. When
  the static variable holds a pointer that is neither scratchpad, it is left as it is and
  every call writes \<open>spad1\<close>.
\<close>

theorem inner_product_result_alternates:
  assumes "spad0 g \<noteq> spad1 g" and "spad0 g \<noteq> NULL" and "spad1 g \<noteq> NULL"
  shows "scratchpads (snd (inner_product_calls ext g NULL cs))
           = map (\<lambda>k. if even k then (spad0 g, spad1 g) else (spad1 g, spad0 g)) [0..<length cs]
         \<and> (\<forall>(la, lr) \<in> set (scratchpads (snd (inner_product_calls ext g NULL cs))). la \<noteq> lr)
         \<and> (cur \<noteq> NULL \<and> cur \<noteq> spad0 g \<and> cur \<noteq> spad1 g \<longrightarrow>
              scratchpads (snd (inner_product_calls ext g cur cs))
                = replicate (length cs) (spad0 g, spad1 g))"
proof -
  have "NULL \<noteq> spad1 g" using assms(3) by simp
  then have eq: "scratchpads (snd (inner_product_calls ext g NULL cs))
           = map (\<lambda>k. if even k then (spad0 g, spad1 g) else (spad1 g, spad0 g)) [0..<length cs]"
    using inner_product_calls_alternate [OF assms, of NULL ext cs] by simp
  have stale: "cur \<noteq> NULL \<and> cur \<noteq> spad0 g \<and> cur \<noteq> spad1 g \<longrightarrow>
              scratchpads (snd (inner_product_calls ext g cur cs))
                = replicate (length cs) (spad0 g, spad1 g)"
    using inner_product_stale_state [of cur g ext cs] by simp
  have distinct: "\<forall>(la, lr) \<in> set (scratchpads (snd (inner_product_calls ext g NULL cs))). la \<noteq> lr"
    unfolding eq using assms(1) by auto
  show ?thesis
    by (rule conjI [OF eq conjI [OF distinct stale]])
qed

theorem inner_product_result_alternates_witness:
  "spad0 g_ex \<noteq> spad1 g_ex \<and> spad0 g_ex \<noteq> NULL \<and> spad1 g_ex \<noteq> NULL
   \<and> scratchpads (snd (inner_product_calls ext_ex g_ex NULL
        [(Ptr 4 0, Ptr 5 0, [fc_resident], 0, Ptr 6 0),
         (Ptr 6 0, Ptr 5 0, [fc_resident], 0, Ptr 4 0),
         (Ptr 4 0, Ptr 5 0, [fc_resident], 0, Ptr 6 0)]))
       = [(Ptr 1 0, Ptr 2 0), (Ptr 2 0, Ptr 1 0), (Ptr 1 0, Ptr 2 0)]
   \<and> Ptr 9 9 \<noteq> NULL \<and> Ptr 9 9 \<noteq> spad0 g_ex \<and> Ptr 9 9 \<noteq> spad1 g_ex
   \<and> scratchpads (snd (inner_product_calls ext_ex g_ex (Ptr 9 9)
        [(Ptr 4 0, Ptr 5 0, [fc_resident], 0, Ptr 6 0),
         (Ptr 6 0, Ptr 5 0, [fc_resident], 0, Ptr 4 0),
         (Ptr 4 0, Ptr 5 0, [fc_resident], 0, Ptr 6 0)]))
       = [(Ptr 1 0, Ptr 2 0), (Ptr 1 0, Ptr 2 0), (Ptr 1 0, Ptr 2 0)]
   \<and> fst (inner_product_calls ext_ex g_ex NULL
        [(Ptr 4 0, Ptr 5 0, [fc_resident], 0, Ptr 6 0),
         (Ptr 6 0, Ptr 5 0, [fc_resident], 0, Ptr 4 0),
         (Ptr 4 0, Ptr 5 0, [fc_resident], 0, Ptr 6 0)]) = Ptr 2 0"
proof -
  have state: "fst (inner_product_calls ext_ex g_ex NULL
        [(Ptr 4 0, Ptr 5 0, [fc_resident], 0, Ptr 6 0),
         (Ptr 6 0, Ptr 5 0, [fc_resident], 0, Ptr 4 0),
         (Ptr 4 0, Ptr 5 0, [fc_resident], 0, Ptr 6 0)]) = Ptr 2 0"
    by (simp add: inner_product_layer_def Let_def g_ex_def)
  show ?thesis
    using inner_product_result_alternates [of g_ex ext_ex
        "[(Ptr 4 0, Ptr 5 0, [fc_resident], 0, Ptr 6 0),
          (Ptr 6 0, Ptr 5 0, [fc_resident], 0, Ptr 4 0),
          (Ptr 4 0, Ptr 5 0, [fc_resident], 0, Ptr 6 0)]" "Ptr 9 9"] state
    by (simp add: g_ex_def upt_rec numeral_3_eq_3)
qed

text \<open>
  Claim C8 as stated is about one process. A second forward pass allocates the
  scratchpads anew while the static variable still holds the result scratchpad of the
  first pass, by then freed: with one call in a first pass and two in a second, whose
  scratchpads are at other addresses, both calls of the second pass write \<open>spad1\<close>.
\<close>

theorem inner_product_passes_counterexample:
  "scratchpads (snd (inner_product_passes ext_ex NULL
      [(g_ex, [(Ptr 4 0, Ptr 5 0, [fc_resident], 0, Ptr 6 0)]),
       (g_ex2, [(Ptr 4 0, Ptr 5 0, [fc_resident], 0, Ptr 6 0),
                (Ptr 6 0, Ptr 5 0, [fc_resident], 0, Ptr 4 0)])]))
     = [(Ptr 1 0, Ptr 2 0), (Ptr 8 0, Ptr 9 0), (Ptr 8 0, Ptr 9 0)]"
  by (simp add: inner_product_layer_def Let_def g_ex_def g_ex2_def scratchpads_append
      scratchpads_inner_product_layer_hw)




subsection \<open>Convolution layers\<close>

lemma divide_work_length:
  assumes "convolution_divide_work ext ls lnum = Inr cfg"
  shows "length (iteration cfg) = unat (num_iterations cfg)"
  using assms
  by (auto simp: convolution_divide_work_def Let_def divide_loop_length split: if_splits)

lemma one_iteration_iff:
  assumes "convolution_divide_work ext ls lnum = Inr cfg"
  shows "num_iterations cfg = 1 \<longleftrightarrow> length (iteration cfg) = 1"
proof -
  have "num_iterations cfg = 1 \<longleftrightarrow> unat (num_iterations cfg) = 1"
    by (simp add: word_unat_eq_iff)
  then show ?thesis by (simp add: divide_work_length [OF assms])
qed

lemma partial_layers_append: "partial_layers (xs @ ys) = partial_layers xs @ partial_layers ys"
  by (induction xs rule: partial_layers.induct) simp_all

lemma partial_layers_concat: "partial_layers (concat xss) = concat (map partial_layers xss)"
  by (induction xss) (simp_all add: partial_layers_append)

lemma partial_layers_convolution_layer_hw:
  "partial_layers (convolution_layer_hw ha hw la lw ls pl lnum img kern sc res) = []"
  by (simp add: convolution_layer_hw_def Let_def)

lemma partial_layers_reduction_hw: "partial_layers (reduction_hw u pl lr n hr) = []"
  by (simp add: reduction_hw_def)

lemma partial_layers_final_rounds: "partial_layers (final_rounds g pl n step k loc) = []"
  by (induction k arbitrary: loc) (simp_all add: partial_layers_append partial_layers_reduction_hw)

lemma partial_layers_final_reduction:
  "final_reduction g l cfg tmp = Inr fin \<Longrightarrow> partial_layers fin = []"
  by (auto simp: final_reduction_def Let_def partial_layers_final_rounds
      partial_layers_reduction_hw split: if_splits)

lemma partial_layers_conv_iterations:
  "partial_layers (conv_iterations g ha hw ls lnum cfg img kern ds sc loc)
     = map (iteration_layer (ls ! lnum) cfg) ds"
  by (induction ds arbitrary: sc loc)
    (simp_all add: Let_def partial_layers_append partial_layers_convolution_layer_hw
      partial_layers_reduction_hw)

lemma runner_Inr:
  assumes "convolution_divide_work ext ls lnum = Inr cfg"
  shows "convolution_runner ext g tmp ha hw ls lnum hr =
         for_each
           (\<lambda>img. for_each (conv_kernel g tmp ha hw ls lnum hr cfg img)
              [0..<nat (sint (height (outputs (ls ! lnum))))])
           [0..<nat (NUM_TEST_CASES ext)]"
  unfolding convolution_runner_def Let_def assms by simp

lemma runner_Inl:
  assumes "convolution_divide_work ext ls lnum = Inl e"
  shows "convolution_runner ext g tmp ha hw ls lnum hr = Inl e"
  unfolding convolution_runner_def Let_def assms by simp

lemma for_each_returns:
  assumes "\<forall>i \<in> set xs. \<exists>e. body i = Inr e"
  shows "\<exists>evs. for_each body xs = Inr evs"
  using assms
proof (induction xs)
  case Nil
  then show ?case by simp
next
  case (Cons x xs)
  then obtain e es where "body x = Inr e" "for_each body xs = Inr es" by auto
  then show ?case by simp
qed

lemma conv_kernel_returns:
  assumes "final_reduction g (ls ! lnum) cfg tmp = Inr fin"
  shows "\<exists>e. conv_kernel g tmp ha hw ls lnum hr cfg img kern = Inr e"
  by (simp add: conv_kernel_def Let_def assms)

lemma runner_returns:
  assumes cfg: "convolution_divide_work ext ls lnum = Inr cfg"
    and fin: "final_reduction g (ls ! lnum) cfg tmp = Inr fin"
  shows "\<exists>evs. convolution_runner ext g tmp ha hw ls lnum hr = Inr evs"
proof -
  have inner: "\<exists>e. for_each (conv_kernel g tmp ha hw ls lnum hr cfg img) ks = Inr e" for img ks
    by (rule for_each_returns) (simp add: conv_kernel_returns [OF fin])
  have "\<exists>evs. for_each
           (\<lambda>img. for_each (conv_kernel g tmp ha hw ls lnum hr cfg img)
              [0..<nat (sint (height (outputs (ls ! lnum))))])
           [0..<nat (NUM_TEST_CASES ext)] = Inr evs"
    by (rule for_each_returns) (simp add: inner)
  then show ?thesis by (simp only: runner_Inr [OF cfg])
qed

lemma runner_aborts:
  assumes cfg: "convolution_divide_work ext ls lnum = Inr cfg"
    and fin: "final_reduction g (ls ! lnum) cfg tmp = Inl e"
    and imgs: "0 < NUM_TEST_CASES ext" and kerns: "0 <s height (outputs (ls ! lnum))"
  shows "convolution_runner ext g tmp ha hw ls lnum hr = Inl e"
proof -
  have k: "conv_kernel g tmp ha hw ls lnum hr cfg img kern = Inl e" for img kern
    by (simp add: conv_kernel_def Let_def fin)
  obtain n where n: "nat (NUM_TEST_CASES ext) = Suc n"
    using imgs by (cases "nat (NUM_TEST_CASES ext)") auto
  have "0 < sint (height (outputs (ls ! lnum)))"
    using kerns by (simp add: word_sless_alt)
  then obtain m where m: "nat (sint (height (outputs (ls ! lnum)))) = Suc m"
    by (cases "nat (sint (height (outputs (ls ! lnum))))") auto
  show ?thesis
    by (simp add: runner_Inr [OF cfg] n m upt_conv_Cons k del: upt_Suc)
qed

text \<open>
  The final reduction: when the block returns, it has run a reduction exactly if the plan
  has more than one iteration; it aborts exactly if the plan has more than one iteration
  and \<^verbatim>\<open>result_iter\<close> is not 1. In the range where single precision is exact, the check
  passes exactly when the partial results have between 1 and 131072 elements: the
  count of \<^verbatim>\<open>float\<close> elements is compared with \<open>SPAD_SIZE\<close>, a number of bytes.
\<close>

lemma final_reduction_rounds:
  assumes "final_reduction g l cfg tmp = Inr fin"
  shows "fin \<noteq> [] \<longleftrightarrow> 1 < num_iterations cfg"
  using assms by (auto simp: final_reduction_def Let_def split: if_splits)

lemma final_reduction_aborts_iff:
  "final_reduction g l cfg tmp = Inl Multiple_final_reductions \<longleftrightarrow>
     1 < num_iterations cfg
     \<and> ceil_fdiv (result_2d_size l * num_iterations cfg) SPAD_SIZE \<noteq> 1"
  by (auto simp: final_reduction_def Let_def split: if_splits)

lemma final_check_counts_elements:
  assumes "unat p < 2 ^ 24"
  shows "ceil_fdiv p SPAD_SIZE = 1 \<longleftrightarrow> 0 < unat p \<and> unat p \<le> 131072"
proof -
  have "ceil_fdiv p SPAD_SIZE = (unat p + 131072 - 1) div 131072"
    using ceil_fdiv_exact [of p SPAD_SIZE] assms by (simp add: SPAD_SIZE_def)
  moreover have "(n + 131072 - 1) div 131072 = 1 \<longleftrightarrow> 0 < n \<and> n \<le> 131072" for n :: nat
  proof (cases "0 < n \<and> n \<le> 131072")
    case True
    then have "(n + 131072 - 1) div 131072 = 1"
      by (intro div_nat_eqI) simp_all
    with True show ?thesis by simp
  next
    case False
    then consider "n = 0" | "131072 < n" by linarith
    then show ?thesis
    proof cases
      case 1
      then show ?thesis by simp
    next
      case 2
      then have "2 * 131072 \<le> n + 131072 - 1" by simp
      then have "2 \<le> (n + 131072 - 1) div 131072"
        by (simp only: less_eq_div_iff_mult_less_eq [of 131072 2, OF zero_less_numeral])
      with 2 show ?thesis by simp
    qed
  qed
  ultimately show ?thesis by simp
qed

lemma conv_tiled_plan:
  "convolution_divide_work ext_ex [conv_tiled] 0
     = Inr \<lparr>iteration = [dims 130 130 2 6, dims 130 130 2 6, dims 130 130 2 6],
            num_iterations = 3\<rparr>"
proof -
  have cf: "ceil_fdiv 6 2 = 3" by (simp add: f32_eval)
  show ?thesis
    by (simp add: convolution_divide_work_def conv_tiled_def layer_eval cf divide_loop_numeral)
qed

lemma conv_tiled_final_reduction:
  "final_reduction g_ex conv_tiled
     \<lparr>iteration = [dims 130 130 2 6, dims 130 130 2 6, dims 130 130 2 6], num_iterations = 3\<rparr>
     (Ptr 3 0)
   = Inr [Invoke_reduction_hw (Ptr 2 0)
            (conv_tiled\<lparr>inputs := dims 130 130 3 6, outputs := dims 128 128 1 0\<rparr>)
            (Ptr 0 0) 16384 (Ptr 3 0),
          Reduction_smiv (Ptr 2 0)
            (conv_tiled\<lparr>inputs := dims 130 130 3 6, outputs := dims 128 128 1 0\<rparr>)
            (Ptr 0 0),
          DmaStore (Ptr 3 0) (Ptr 0 0) 65536]"
proof -
  have cf: "ceil_fdiv 49152 131072 = 1" by (simp add: f32_eval)
  have r: "result_2d_size conv_tiled = 16384"
    by (simp add: result_2d_size_def conv_tiled_def dims_def)
  have d: "(word_of_int (sint (131072 :: 32 word) sdiv sint (16384 :: 32 word)) :: 32 word) = 8"
    by (simp add: signed_divide_int_def)
  show ?thesis
    by (simp add: final_reduction_def Let_def r cf d SPAD_SIZE_def reduction_hw_def g_ex_def)
      (simp add: conv_tiled_def dims_def)
qed

text \<open>
  Claim C4, at a layer where the code departs from it. The layer \<open>conv_tiled\<close> has a
  128x128 output and 6 input channels; its plan has 3 iterations, whose partial results
  take \<open>3 * 16384 * 4 = 196608\<close> bytes, more than the 131072 bytes of a scratchpad. The
  check computes \<open>\<lceil>49152 / 131072\<rceil> = 1\<close>, the assertion holds, the final reduction runs
  over 3 channels and \<^verbatim>\<open>convolution_runner\<close> returns.
\<close>

theorem final_reduction_capacity_slip:
  "convolution_divide_work ext_ex [conv_tiled] 0
     = Inr \<lparr>iteration = [dims 130 130 2 6, dims 130 130 2 6, dims 130 130 2 6],
            num_iterations = 3\<rparr>
   \<and> unat SPAD_SIZE < 4 * (unat (result_2d_size conv_tiled) * 3)
   \<and> (\<exists>fin. final_reduction g_ex conv_tiled
               \<lparr>iteration = [dims 130 130 2 6, dims 130 130 2 6, dims 130 130 2 6],
                num_iterations = 3\<rparr> (Ptr 3 0) = Inr fin \<and> fin \<noteq> [])
   \<and> (\<exists>evs. convolution_runner ext_ex g_ex (Ptr 3 0) (Ptr 4 0) (Ptr 5 0) [conv_tiled] 0 (Ptr 6 0)
               = Inr evs)"
proof -
  have fin: "final_reduction g_ex ([conv_tiled] ! 0)
               \<lparr>iteration = [dims 130 130 2 6, dims 130 130 2 6, dims 130 130 2 6],
                num_iterations = 3\<rparr> (Ptr 3 0)
             = Inr [Invoke_reduction_hw (Ptr 2 0)
            (conv_tiled\<lparr>inputs := dims 130 130 3 6, outputs := dims 128 128 1 0\<rparr>)
            (Ptr 0 0) 16384 (Ptr 3 0),
          Reduction_smiv (Ptr 2 0)
            (conv_tiled\<lparr>inputs := dims 130 130 3 6, outputs := dims 128 128 1 0\<rparr>)
            (Ptr 0 0),
          DmaStore (Ptr 3 0) (Ptr 0 0) 65536]"
    using conv_tiled_final_reduction by simp
  have size: "unat SPAD_SIZE < 4 * (unat (result_2d_size conv_tiled) * 3)"
    by (simp add: SPAD_SIZE_def result_2d_size_def conv_tiled_def dims_def)
  show ?thesis
    using conv_tiled_plan size runner_returns [OF conv_tiled_plan fin]
    by (simp add: conv_tiled_final_reduction)
qed

lemma block_ptr_add: "block (ptr_add p n) = block p"
  by (cases p) simp_all

lemma conv_inputs_append: "conv_inputs (xs @ ys) = conv_inputs xs @ conv_inputs ys"
  by (induction xs rule: conv_inputs.induct) simp_all

lemma copy_dests_append: "copy_dests (xs @ ys) = copy_dests xs @ copy_dests ys"
  by (induction xs rule: copy_dests.induct) simp_all

lemma copy_dests_concat: "copy_dests (concat xss) = concat (map copy_dests xss)"
  by (induction xss) (simp_all add: copy_dests_append)

lemma conv_inputs_final_rounds: "conv_inputs (final_rounds g pl n step k loc) = []"
  by (induction k arbitrary: loc) (simp_all add: conv_inputs_append reduction_hw_def)

lemma copy_dests_final_rounds: "copy_dests (final_rounds g pl n step k loc) = []"
  by (induction k arbitrary: loc) (simp_all add: copy_dests_append reduction_hw_def)

lemma final_reduction_projections:
  assumes "final_reduction g l cfg tmp = Inr fin"
  shows "conv_inputs fin = []" and "copy_dests fin = []"
  using assms
  by (auto simp: final_reduction_def Let_def conv_inputs_final_rounds copy_dests_final_rounds
      simp del: final_rounds.simps split: if_splits)

lemma conv_inputs_conv_iterations:
  "conv_inputs (conv_iterations g ha hw ls lnum cfg img kern ds sc loc) = replicate (length ds) ha"
  by (induction ds arbitrary: sc loc)
    (simp_all add: Let_def conv_inputs_append convolution_layer_hw_def reduction_hw_def)

lemma copy_dests_conv_iterations:
  "copy_dests (conv_iterations g ha hw ls lnum cfg img kern ds sc loc) = []"
  by (induction ds arbitrary: sc loc)
    (simp_all add: Let_def copy_dests_append convolution_layer_hw_def reduction_hw_def)

lemma conv_small_plan:
  "convolution_divide_work ext_ex [conv_small] 0
     = Inr \<lparr>iteration = [dims 10 10 4 6], num_iterations = 1\<rparr>"
  by (simp add: convolution_divide_work_def conv_small_def layer_eval)

subsection \<open>Runs of the convolution with the calls before an abort\<close>

lemma for_each_trace_None:
  assumes "\<forall>i \<in> set xs. snd (body i) = None"
  shows "for_each_trace body xs = (concat (map (\<lambda>i. fst (body i)) xs), None)"
  using assms
proof (induction xs)
  case Nil
  then show ?case by simp
next
  case (Cons x xs)
  obtain evs where x: "body x = (evs, None)"
    using Cons.prems by (cases "body x") auto
  have "for_each_trace body xs = (concat (map (\<lambda>i. fst (body i)) xs), None)"
    using Cons by simp
  then show ?case by (simp add: x)
qed

lemma for_each_trace_Some:
  assumes "snd (body x) = Some e"
  shows "for_each_trace body (x # xs) = (fst (body x), Some e)"
proof -
  obtain evs where x: "body x = (evs, Some e)"
    using assms by (cases "body x") auto
  show ?thesis by (simp add: x)
qed

lemma for_each_outcome:
  assumes "\<And>i. body i = (case body' i of (evs, None) \<Rightarrow> Inr evs | (evs, Some e) \<Rightarrow> Inl e)"
  shows "for_each body xs
           = (case for_each_trace body' xs of (evs, None) \<Rightarrow> Inr evs | (evs, Some e) \<Rightarrow> Inl e)"
proof (induction xs)
  case Nil
  then show ?case by simp
next
  case (Cons x xs)
  then show ?case
    by (simp add: assms [of x] split: prod.splits option.splits sum.splits)
qed

lemma conv_kernel_outcome:
  "conv_kernel g tmp ha hw ls lnum hr cfg img kern
     = (case conv_kernel_trace g tmp ha hw ls lnum hr cfg img kern of
          (evs, None) \<Rightarrow> Inr evs | (evs, Some e) \<Rightarrow> Inl e)"
  by (simp add: conv_kernel_def conv_kernel_trace_def Let_def split: sum.splits)

text \<open>
  The two models of \<^verbatim>\<open>convolution_runner\<close> agree: a run returns with its calls, or
  aborts with its error.
\<close>

lemma convolution_runner_outcome:
  "convolution_runner ext g tmp ha hw ls lnum hr
     = (case convolution_runner_trace ext g tmp ha hw ls lnum hr of
          (evs, None) \<Rightarrow> Inr evs | (evs, Some e) \<Rightarrow> Inl e)"
proof (cases "convolution_divide_work ext ls lnum")
  case (Inl e)
  then show ?thesis
    by (simp add: convolution_runner_def convolution_runner_trace_def)
next
  case (Inr cfg)
  have inner: "for_each (conv_kernel g tmp ha hw ls lnum hr cfg img) ks
                 = (case for_each_trace (conv_kernel_trace g tmp ha hw ls lnum hr cfg img) ks of
                      (evs, None) \<Rightarrow> Inr evs | (evs, Some e) \<Rightarrow> Inl e)" for img ks
    by (rule for_each_outcome) (rule conv_kernel_outcome)
  have "for_each (\<lambda>img. for_each (conv_kernel g tmp ha hw ls lnum hr cfg img)
                    [0..<nat (sint (height (outputs (ls ! lnum))))])
          [0..<nat (NUM_TEST_CASES ext)]
        = (case for_each_trace
                  (\<lambda>img. for_each_trace (conv_kernel_trace g tmp ha hw ls lnum hr cfg img)
                     [0..<nat (sint (height (outputs (ls ! lnum))))])
                  [0..<nat (NUM_TEST_CASES ext)] of
             (evs, None) \<Rightarrow> Inr evs | (evs, Some e) \<Rightarrow> Inl e)"
    by (rule for_each_outcome) (rule inner)
  then show ?thesis
    by (simp add: convolution_runner_def convolution_runner_trace_def Let_def Inr)
qed

lemma runner_trace_no_plan:
  assumes "convolution_divide_work ext ls lnum = Inl e"
  shows "convolution_runner_trace ext g tmp ha hw ls lnum hr = ([], Some e)"
  by (simp add: convolution_runner_trace_def assms)

lemma runner_trace_plan:
  assumes "convolution_divide_work ext ls lnum = Inr cfg"
  shows "convolution_runner_trace ext g tmp ha hw ls lnum hr =
         for_each_trace
           (\<lambda>img. for_each_trace (conv_kernel_trace g tmp ha hw ls lnum hr cfg img)
              [0..<nat (sint (height (outputs (ls ! lnum))))])
           [0..<nat (NUM_TEST_CASES ext)]"
  by (simp add: convolution_runner_trace_def Let_def assms)

lemma runner_trace_returns:
  assumes cfg: "convolution_divide_work ext ls lnum = Inr cfg"
    and fin: "final_reduction g (ls ! lnum) cfg tmp = Inr f"
  shows "convolution_runner_trace ext g tmp ha hw ls lnum hr =
         (concat (map (\<lambda>img. concat (map (\<lambda>kern.
             conv_iterations g ha hw ls lnum cfg img kern (iteration cfg) 0 tmp
               @ f
               @ [Memcpy
                    (ptr_add hr ((int img * sint (height (outputs (ls ! lnum))) + int kern)
                       * sint (rows (outputs (ls ! lnum)))
                       * (sint (cols (outputs (ls ! lnum)))
                          + sint (align_pad (outputs (ls ! lnum))))))
                    tmp (scast (result_2d_size (ls ! lnum)) * 4)])
             [0..<nat (sint (height (outputs (ls ! lnum))))]))
           [0..<nat (NUM_TEST_CASES ext)]),
          None)"
proof -
  define T where "T = (\<lambda>img kern.
             conv_iterations g ha hw ls lnum cfg img kern (iteration cfg) 0 tmp
               @ f
               @ [Memcpy
                    (ptr_add hr ((int img * sint (height (outputs (ls ! lnum))) + int kern)
                       * sint (rows (outputs (ls ! lnum)))
                       * (sint (cols (outputs (ls ! lnum)))
                          + sint (align_pad (outputs (ls ! lnum))))))
                    tmp (scast (result_2d_size (ls ! lnum)) * 4)])"
  have k: "conv_kernel_trace g tmp ha hw ls lnum hr cfg img kern = (T img kern, None)" for img kern
    by (simp add: conv_kernel_trace_def Let_def fin T_def)
  have inner: "for_each_trace (conv_kernel_trace g tmp ha hw ls lnum hr cfg img) ks
                 = (concat (map (T img) ks), None)" for img ks
    using for_each_trace_None [of ks "conv_kernel_trace g tmp ha hw ls lnum hr cfg img"]
    by (simp add: k)
  have "for_each_trace
           (\<lambda>img. for_each_trace (conv_kernel_trace g tmp ha hw ls lnum hr cfg img)
              [0..<nat (sint (height (outputs (ls ! lnum))))])
           [0..<nat (NUM_TEST_CASES ext)]
        = (concat (map (\<lambda>img. concat (map (T img) [0..<nat (sint (height (outputs (ls ! lnum))))]))
             [0..<nat (NUM_TEST_CASES ext)]), None)"
    using for_each_trace_None [of "[0..<nat (NUM_TEST_CASES ext)]"
        "\<lambda>img. for_each_trace (conv_kernel_trace g tmp ha hw ls lnum hr cfg img)
              [0..<nat (sint (height (outputs (ls ! lnum))))]"]
    by (simp add: inner)
  then show ?thesis
    unfolding runner_trace_plan [OF cfg] T_def .
qed

lemma runner_trace_aborts:
  assumes cfg: "convolution_divide_work ext ls lnum = Inr cfg"
    and fin: "final_reduction g (ls ! lnum) cfg tmp = Inl e"
    and pairs: "0 < nat (NUM_TEST_CASES ext) * nat (sint (height (outputs (ls ! lnum))))"
  shows "convolution_runner_trace ext g tmp ha hw ls lnum hr =
         (conv_iterations g ha hw ls lnum cfg 0 0 (iteration cfg) 0 tmp, Some e)"
proof -
  have k: "conv_kernel_trace g tmp ha hw ls lnum hr cfg img kern
             = (conv_iterations g ha hw ls lnum cfg img kern (iteration cfg) 0 tmp, Some e)"
    for img kern
    by (simp add: conv_kernel_trace_def Let_def fin)
  obtain n where n: "nat (NUM_TEST_CASES ext) = Suc n"
    using pairs by (cases "nat (NUM_TEST_CASES ext)") auto
  obtain m where m: "nat (sint (height (outputs (ls ! lnum)))) = Suc m"
    using pairs by (cases "nat (sint (height (outputs (ls ! lnum))))") auto
  show ?thesis
    by (simp add: runner_trace_plan [OF cfg] n m upt_conv_Cons k del: upt_Suc)
qed

lemma runner_trace_no_pairs:
  assumes cfg: "convolution_divide_work ext ls lnum = Inr cfg"
    and pairs: "nat (NUM_TEST_CASES ext) * nat (sint (height (outputs (ls ! lnum)))) = 0"
  shows "convolution_runner_trace ext g tmp ha hw ls lnum hr = ([], None)"
proof (cases "nat (NUM_TEST_CASES ext) = 0")
  case True
  then show ?thesis by (simp add: runner_trace_plan [OF cfg])
next
  case False
  with pairs have m: "nat (sint (height (outputs (ls ! lnum)))) = 0" by simp
  have "for_each_trace
           (\<lambda>img. for_each_trace (conv_kernel_trace g tmp ha hw ls lnum hr cfg img) [])
           [0..<nat (NUM_TEST_CASES ext)]
        = (concat (map (\<lambda>img. []) [0..<nat (NUM_TEST_CASES ext)]), None)"
    using for_each_trace_None [of "[0..<nat (NUM_TEST_CASES ext)]"
        "\<lambda>img. for_each_trace (conv_kernel_trace g tmp ha hw ls lnum hr cfg img) []"]
    by simp
  then show ?thesis by (simp add: runner_trace_plan [OF cfg] m)
qed

lemma concat_map_const:
  "concat (map (\<lambda>i. concat (map (\<lambda>k. c) ks)) js) = concat (replicate (length js * length ks) c)"
proof (induction js)
  case Nil
  then show ?case by simp
next
  case (Cons j js)
  have "concat (map (\<lambda>k. c) ks) = concat (replicate (length ks) c)"
    by (simp add: map_replicate_const)
  with Cons show ?case by (simp add: replicate_add)
qed

lemma concat_replicate_replicate: "concat (replicate a (replicate b x)) = replicate (a * b) x"
  by (induction a) (simp_all add: replicate_add)

lemma more_iterations_iff:
  assumes "convolution_divide_work ext ls lnum = Inr cfg"
  shows "1 < num_iterations cfg \<longleftrightarrow> 1 < length (iteration cfg)"
  using divide_work_length [OF assms] by (simp add: word_less_nat_alt)

lemma conv_inputs_concat: "conv_inputs (concat xss) = concat (map conv_inputs xss)"
  by (induction xss) (simp_all add: conv_inputs_append)

lemma zeropads_append: "zeropads (xs @ ys) = zeropads xs @ zeropads ys"
  by (induction xs rule: zeropads.induct) simp_all

lemma zeropads_concat: "zeropads (concat xss) = concat (map zeropads xss)"
  by (induction xss) (simp_all add: zeropads_append)

lemma zeropads_conv_iterations:
  "zeropads (conv_iterations g ha hw ls lnum cfg img kern ds sc loc) = []"
  by (induction ds arbitrary: sc loc)
    (simp_all add: Let_def zeropads_append convolution_layer_hw_def reduction_hw_def)

lemma zeropads_final_rounds: "zeropads (final_rounds g pl n step k loc) = []"
  by (induction k arbitrary: loc) (simp_all add: zeropads_append reduction_hw_def)

lemma zeropads_final_reduction:
  assumes "final_reduction g l cfg tmp = Inr fin"
  shows "zeropads fin = []"
  using assms
  by (auto simp: final_reduction_def Let_def zeropads_final_rounds
      simp del: final_rounds.simps split: if_splits)

lemma moves_Nil: "moves [] = []"
  by (simp add: moves_def)

lemma moves_Cons:
  "moves (e # es)
     = (if written e = [] then [] else [(map block (reads e), map block (written e))]) @ moves es"
  by (simp add: moves_def)

lemma moves_append: "moves (xs @ ys) = moves xs @ moves ys"
  by (simp add: moves_def)

lemma moves_concat: "moves (concat xss) = concat (map moves xss)"
  by (induction xss) (simp_all add: moves_append moves_Nil)

lemma moves_convolution_layer_hw:
  "moves (convolution_layer_hw ha hw la lw ls pl lnum img kern sc res)
     = [([block hw], [block lw])]
       @ (if needs_input_dma_load pl then [([block ha], [block la])] else [])
       @ [([block la, block lw], [block res])]"
  by (simp add: convolution_layer_hw_def Let_def moves_Cons moves_Nil moves_append block_ptr_add)

lemma moves_reduction_hw:
  "moves (reduction_hw u pl lr n hr) = [([block u], [block lr]), ([block lr], [block hr])]"
  by (simp add: reduction_hw_def moves_Cons moves_Nil)

lemma needs_input_iteration_layer:
  "needs_input_dma_load (iteration_layer l cfg d) = needs_input_dma_load l"
  by (simp add: iteration_layer_def)

lemma moves_conv_iterations:
  assumes "block loc = block tmp"
  shows "moves (conv_iterations g ha hw ls lnum cfg img kern ds sc loc)
           = concat (replicate (length ds)
               ([([block hw], [block (spad0 g)])]
                @ (if needs_input_dma_load (ls ! lnum) then [([block ha], [block (umem g)])] else [])
                @ [([block (umem g), block (spad0 g)], [block (spad1 g)]),
                   ([block (spad1 g)], [block (umem g)]),
                   ([block (umem g)], [block tmp])]))"
  using assms
proof (induction ds arbitrary: sc loc)
  case Nil
  then show ?case by (simp add: moves_Nil)
next
  case (Cons d ds)
  have "block (ptr_add loc (sint (result_2d_size (ls ! lnum)))) = block tmp"
    using Cons.prems by (simp add: block_ptr_add)
  note IH = Cons.IH [OF this]
  show ?case
    by (simp add: Let_def moves_Cons moves_append moves_convolution_layer_hw moves_reduction_hw
        needs_input_iteration_layer IH Cons.prems)
qed

lemma moves_final_rounds:
  assumes "block loc = block tmp"
  shows "moves (final_rounds g pl n step k loc)
           = concat (replicate k [([block (spad1 g)], [block (umem g)]),
                                  ([block (umem g)], [block tmp])])"
  using assms
proof (induction k arbitrary: loc)
  case 0
  then show ?case by (simp add: moves_Nil)
next
  case (Suc k)
  have "block (ptr_add loc step) = block tmp"
    using Suc.prems by (simp add: block_ptr_add)
  note IH = Suc.IH [OF this]
  show ?case
    by (simp add: moves_Cons moves_append moves_reduction_hw IH Suc.prems)
qed

lemma moves_final_reduction:
  assumes "final_reduction g l cfg tmp = Inr fin"
  shows "moves fin
           = (if 1 < num_iterations cfg
              then [([block (spad1 g)], [block (umem g)]), ([block (umem g)], [block tmp])]
              else [])"
proof (cases "1 < num_iterations cfg")
  case True
  with assms obtain pl n step where "fin = final_rounds g pl n step 1 tmp"
    by (auto simp: final_reduction_def Let_def simp del: final_rounds.simps split: if_splits)
  then show ?thesis
    using True moves_final_rounds [of tmp tmp g pl n step 1] by simp
next
  case False
  with assms show ?thesis by (simp add: final_reduction_def moves_Nil)
qed

text \<open>
  The projections of a run of \<^verbatim>\<open>convolution_runner\<close> that has a plan: of a run that
  returns, and of a run whose final reduction aborts.
\<close>

lemma runner_trace_projections_returns:
  assumes cfg: "convolution_divide_work ext ls lnum = Inr cfg"
    and fin: "final_reduction g (ls ! lnum) cfg tmp = Inr f"
  shows "snd (convolution_runner_trace ext g tmp ha hw ls lnum hr) = None"
    and "partial_layers (fst (convolution_runner_trace ext g tmp ha hw ls lnum hr))
           = concat (replicate
               (nat (NUM_TEST_CASES ext) * nat (sint (height (outputs (ls ! lnum)))))
               (map (iteration_layer (ls ! lnum) cfg) (iteration cfg)))"
    and "conv_inputs (fst (convolution_runner_trace ext g tmp ha hw ls lnum hr))
           = replicate
               (nat (NUM_TEST_CASES ext) * nat (sint (height (outputs (ls ! lnum))))
                  * length (iteration cfg)) ha"
    and "copy_dests (fst (convolution_runner_trace ext g tmp ha hw ls lnum hr))
           = concat (map (\<lambda>img. concat (map (\<lambda>kern.
               [ptr_add hr ((int img * sint (height (outputs (ls ! lnum))) + int kern)
                              * sint (rows (outputs (ls ! lnum)))
                              * (sint (cols (outputs (ls ! lnum)))
                                 + sint (align_pad (outputs (ls ! lnum)))))])
               [0..<nat (sint (height (outputs (ls ! lnum))))]))
             [0..<nat (NUM_TEST_CASES ext)])"
    and "moves (fst (convolution_runner_trace ext g tmp ha hw ls lnum hr))
           = concat (replicate
               (nat (NUM_TEST_CASES ext) * nat (sint (height (outputs (ls ! lnum)))))
               (concat (replicate (length (iteration cfg))
                  ([([block hw], [block (spad0 g)])]
                   @ (if needs_input_dma_load (ls ! lnum)
                      then [([block ha], [block (umem g)])] else [])
                   @ [([block (umem g), block (spad0 g)], [block (spad1 g)]),
                      ([block (spad1 g)], [block (umem g)]),
                      ([block (umem g)], [block tmp])]))
                @ (if 1 < length (iteration cfg)
                   then [([block (spad1 g)], [block (umem g)]), ([block (umem g)], [block tmp])]
                   else [])
                @ [([block tmp], [block hr])]))"
    and "zeropads (fst (convolution_runner_trace ext g tmp ha hw ls lnum hr)) = []"
proof -
  note run = runner_trace_returns [OF cfg fin, of ha hw hr]
  show "snd (convolution_runner_trace ext g tmp ha hw ls lnum hr) = None"
    by (simp add: run)
  show "partial_layers (fst (convolution_runner_trace ext g tmp ha hw ls lnum hr))
           = concat (replicate
               (nat (NUM_TEST_CASES ext) * nat (sint (height (outputs (ls ! lnum)))))
               (map (iteration_layer (ls ! lnum) cfg) (iteration cfg)))"
    by (simp add: run partial_layers_concat partial_layers_append comp_def
        partial_layers_conv_iterations partial_layers_final_reduction [OF fin] concat_map_const)
  show "conv_inputs (fst (convolution_runner_trace ext g tmp ha hw ls lnum hr))
           = replicate
               (nat (NUM_TEST_CASES ext) * nat (sint (height (outputs (ls ! lnum))))
                  * length (iteration cfg)) ha"
    by (simp add: run conv_inputs_concat conv_inputs_append comp_def
        conv_inputs_conv_iterations final_reduction_projections(1) [OF fin] concat_map_const
        concat_replicate_replicate)
  show "copy_dests (fst (convolution_runner_trace ext g tmp ha hw ls lnum hr))
           = concat (map (\<lambda>img. concat (map (\<lambda>kern.
               [ptr_add hr ((int img * sint (height (outputs (ls ! lnum))) + int kern)
                              * sint (rows (outputs (ls ! lnum)))
                              * (sint (cols (outputs (ls ! lnum)))
                                 + sint (align_pad (outputs (ls ! lnum)))))])
               [0..<nat (sint (height (outputs (ls ! lnum))))]))
             [0..<nat (NUM_TEST_CASES ext)])"
    by (simp add: run copy_dests_concat copy_dests_append comp_def
        copy_dests_conv_iterations final_reduction_projections(2) [OF fin])
  show "moves (fst (convolution_runner_trace ext g tmp ha hw ls lnum hr))
           = concat (replicate
               (nat (NUM_TEST_CASES ext) * nat (sint (height (outputs (ls ! lnum)))))
               (concat (replicate (length (iteration cfg))
                  ([([block hw], [block (spad0 g)])]
                   @ (if needs_input_dma_load (ls ! lnum)
                      then [([block ha], [block (umem g)])] else [])
                   @ [([block (umem g), block (spad0 g)], [block (spad1 g)]),
                      ([block (spad1 g)], [block (umem g)]),
                      ([block (umem g)], [block tmp])]))
                @ (if 1 < length (iteration cfg)
                   then [([block (spad1 g)], [block (umem g)]), ([block (umem g)], [block tmp])]
                   else [])
                @ [([block tmp], [block hr])]))"
    by (simp add: run moves_concat moves_append comp_def moves_Cons moves_Nil
        moves_conv_iterations [of tmp tmp] moves_final_reduction [OF fin]
        more_iterations_iff [OF cfg] block_ptr_add concat_map_const)
  show "zeropads (fst (convolution_runner_trace ext g tmp ha hw ls lnum hr)) = []"
    by (simp add: run zeropads_concat zeropads_append comp_def zeropads_conv_iterations
        zeropads_final_reduction [OF fin])
qed

lemma runner_trace_projections_aborts:
  assumes cfg: "convolution_divide_work ext ls lnum = Inr cfg"
    and fin: "final_reduction g (ls ! lnum) cfg tmp = Inl e"
    and pairs: "0 < nat (NUM_TEST_CASES ext) * nat (sint (height (outputs (ls ! lnum))))"
  shows "snd (convolution_runner_trace ext g tmp ha hw ls lnum hr) = Some e"
    and "partial_layers (fst (convolution_runner_trace ext g tmp ha hw ls lnum hr))
           = map (iteration_layer (ls ! lnum) cfg) (iteration cfg)"
    and "conv_inputs (fst (convolution_runner_trace ext g tmp ha hw ls lnum hr))
           = replicate (length (iteration cfg)) ha"
    and "copy_dests (fst (convolution_runner_trace ext g tmp ha hw ls lnum hr)) = []"
    and "moves (fst (convolution_runner_trace ext g tmp ha hw ls lnum hr))
           = concat (replicate (length (iteration cfg))
                  ([([block hw], [block (spad0 g)])]
                   @ (if needs_input_dma_load (ls ! lnum)
                      then [([block ha], [block (umem g)])] else [])
                   @ [([block (umem g), block (spad0 g)], [block (spad1 g)]),
                      ([block (spad1 g)], [block (umem g)]),
                      ([block (umem g)], [block tmp])]))"
    and "zeropads (fst (convolution_runner_trace ext g tmp ha hw ls lnum hr)) = []"
proof -
  note run = runner_trace_aborts [OF cfg fin pairs, of ha hw hr]
  show "snd (convolution_runner_trace ext g tmp ha hw ls lnum hr) = Some e"
    by (simp add: run)
  show "partial_layers (fst (convolution_runner_trace ext g tmp ha hw ls lnum hr))
           = map (iteration_layer (ls ! lnum) cfg) (iteration cfg)"
    by (simp add: run partial_layers_conv_iterations)
  show "conv_inputs (fst (convolution_runner_trace ext g tmp ha hw ls lnum hr))
           = replicate (length (iteration cfg)) ha"
    by (simp add: run conv_inputs_conv_iterations)
  show "copy_dests (fst (convolution_runner_trace ext g tmp ha hw ls lnum hr)) = []"
    by (simp add: run copy_dests_conv_iterations)
  show "moves (fst (convolution_runner_trace ext g tmp ha hw ls lnum hr))
           = concat (replicate (length (iteration cfg))
                  ([([block hw], [block (spad0 g)])]
                   @ (if needs_input_dma_load (ls ! lnum)
                      then [([block ha], [block (umem g)])] else [])
                   @ [([block (umem g), block (spad0 g)], [block (spad1 g)]),
                      ([block (spad1 g)], [block (umem g)]),
                      ([block (umem g)], [block tmp])]))"
    by (simp add: run moves_conv_iterations [of tmp tmp])
  show "zeropads (fst (convolution_runner_trace ext g tmp ha hw ls lnum hr)) = []"
    by (simp add: run zeropads_conv_iterations)
qed

text \<open>
  Claim C7. In every run of \<^verbatim>\<open>convolution_runner\<close> on a layer that has a plan, the
  layer descriptions passed to \<^verbatim>\<open>convolution_layer_hw\<close> are, for every image and
  every kernel in turn, one per iteration of the plan in the order of the plan: the layer
  itself with the channel counts of its inputs, outputs and weights replaced by the
  channel count of the iteration, and with its activation kept when the plan has exactly
  one iteration and replaced by \<open>NONE\<close> otherwise. A run that returns has gone through
  all pairs of an image and a kernel; a run aborts exactly when there is such a pair and
  the final reduction aborts, its assertion failing, and it has then gone through the
  iterations of the first pair. A layer without a plan aborts before any call.
\<close>

theorem runner_partial_layer:
  "case convolution_divide_work ext ls lnum of
     Inl e \<Rightarrow> convolution_runner_trace ext g tmp ha hw ls lnum hr = ([], Some e)
   | Inr cfg \<Rightarrow>
       partial_layers (fst (convolution_runner_trace ext g tmp ha hw ls lnum hr))
         = concat (replicate
             (if snd (convolution_runner_trace ext g tmp ha hw ls lnum hr) = None
              then nat (NUM_TEST_CASES ext) * nat (sint (height (outputs (ls ! lnum))))
              else 1)
             (map (\<lambda>d. (ls ! lnum)
                          \<lparr>inputs := (inputs (ls ! lnum))\<lparr>height := height d\<rparr>,
                           outputs := (outputs (ls ! lnum))\<lparr>height := height d\<rparr>,
                           weights := (weights (ls ! lnum))\<lparr>height := height d\<rparr>,
                           activation := (if length (iteration cfg) = 1
                                          then activation (ls ! lnum) else NONE)\<rparr>)
                  (iteration cfg)))
       \<and> (snd (convolution_runner_trace ext g tmp ha hw ls lnum hr) = None
            \<longleftrightarrow> nat (NUM_TEST_CASES ext) * nat (sint (height (outputs (ls ! lnum)))) = 0
                \<or> (\<exists>fin. final_reduction g (ls ! lnum) cfg tmp = Inr fin))"
proof (cases "convolution_divide_work ext ls lnum")
  case (Inl e)
  then show ?thesis by (simp add: runner_trace_no_plan)
next
  case (Inr cfg)
  define L where "L = map (iteration_layer (ls ! lnum) cfg) (iteration cfg)"
  have L_eq: "L = map (\<lambda>d. (ls ! lnum)
                          \<lparr>inputs := (inputs (ls ! lnum))\<lparr>height := height d\<rparr>,
                           outputs := (outputs (ls ! lnum))\<lparr>height := height d\<rparr>,
                           weights := (weights (ls ! lnum))\<lparr>height := height d\<rparr>,
                           activation := (if length (iteration cfg) = 1
                                          then activation (ls ! lnum) else NONE)\<rparr>)
                  (iteration cfg)"
    unfolding L_def iteration_layer_def one_iteration_iff [OF Inr] ..
  define R where "R = convolution_runner_trace ext g tmp ha hw ls lnum hr"
  define P where "P = nat (NUM_TEST_CASES ext) * nat (sint (height (outputs (ls ! lnum))))"
  have main: "partial_layers (fst R) = concat (replicate (if snd R = None then P else 1) L)
              \<and> (snd R = None \<longleftrightarrow> P = 0 \<or> (\<exists>fin. final_reduction g (ls ! lnum) cfg tmp = Inr fin))"
  proof (cases "final_reduction g (ls ! lnum) cfg tmp")
    case fin: (Inr f)
    from runner_trace_projections_returns(1,2) [OF Inr fin, of ha hw hr] fin
    show ?thesis unfolding R_def P_def L_def by simp
  next
    case fin: (Inl e)
    show ?thesis
    proof (cases "P = 0")
      case True
      then have "R = ([], None)"
        unfolding R_def P_def by (rule runner_trace_no_pairs [OF Inr])
      with True show ?thesis by simp
    next
      case False
      then have "0 < nat (NUM_TEST_CASES ext) * nat (sint (height (outputs (ls ! lnum))))"
        unfolding P_def by simp
      from runner_trace_projections_aborts(1,2) [OF Inr fin this, of ha hw hr] False fin
      show ?thesis unfolding R_def L_def by simp
    qed
  qed
  show ?thesis
    using main unfolding Inr R_def P_def L_eq by simp
qed

lemma conv_deep_plan:
  "convolution_divide_work ext_ex [conv_deep] 0
     = Inr \<lparr>iteration = replicate 9 (dims 130 130 2 6), num_iterations = 9\<rparr>"
proof -
  have cf: "ceil_fdiv 18 2 = 9" by (simp add: f32_eval)
  have r: "replicate 9 x = [x, x, x, x, x, x, x, x, x]" for x :: dims_t
    by (simp add: numeral_eq_Suc)
  show ?thesis
    unfolding r
    by (simp add: convolution_divide_work_def conv_deep_def layer_eval cf divide_loop_numeral)
qed

lemma conv_deep_final_reduction:
  "final_reduction g_ex conv_deep
     \<lparr>iteration = replicate 9 (dims 130 130 2 6), num_iterations = 9\<rparr> (Ptr 3 0)
   = Inl Multiple_final_reductions"
proof -
  have cf: "ceil_fdiv 147456 131072 = 2" by (simp add: f32_eval)
  have r: "result_2d_size conv_deep = 16384"
    by (simp add: result_2d_size_def conv_deep_def dims_def)
  show ?thesis
    by (simp add: final_reduction_def Let_def r cf SPAD_SIZE_def)
qed

theorem runner_partial_layer_witness:
  "partial_layers
     (fst (convolution_runner_trace ext_ex g_ex (Ptr 3 0) (Ptr 4 0) (Ptr 5 0) [conv_deep] 0 (Ptr 6 0)))
     = replicate 9 (conv_deep\<lparr>inputs := dims 130 130 2 6, outputs := dims 128 128 2 0,
                                weights := dims 3 3 2 5, activation := NONE\<rparr>)
   \<and> snd (convolution_runner_trace ext_ex g_ex (Ptr 3 0) (Ptr 4 0) (Ptr 5 0) [conv_deep] 0 (Ptr 6 0))
       \<noteq> None
   \<and> partial_layers
       (fst (convolution_runner_trace ext_ex g_ex (Ptr 3 0) (Ptr 4 0) (Ptr 5 0) [conv_tiled] 0 (Ptr 6 0)))
       = replicate 3 (conv_tiled\<lparr>inputs := dims 130 130 2 6, outputs := dims 128 128 2 0,
                                  weights := dims 3 3 2 5, activation := NONE\<rparr>)
   \<and> snd (convolution_runner_trace ext_ex g_ex (Ptr 3 0) (Ptr 4 0) (Ptr 5 0) [conv_tiled] 0 (Ptr 6 0))
       = None
   \<and> partial_layers
       (fst (convolution_runner_trace ext_ex g_ex (Ptr 3 0) (Ptr 4 0) (Ptr 5 0) [conv_small] 0 (Ptr 6 0)))
       = replicate 2 (conv_small\<lparr>inputs := dims 10 10 4 6, outputs := dims 8 8 4 0,
                                  weights := dims 3 3 4 5\<rparr>)
   \<and> convolution_runner_trace ext_ex g_ex (Ptr 3 0) (Ptr 4 0) (Ptr 5 0) [conv_small] 0 (Ptr 6 0)
       = ([Invoke_convolution_layer_hw (Ptr 4 0) (Ptr 5 0) (Ptr 0 0) (Ptr 1 0)
             (conv_small\<lparr>outputs := dims 8 8 4 0\<rparr>) 0 0 0 0 (Ptr 2 0),
           DmaLoad (Ptr 1 0) (Ptr 5 0) 384,
           DmaLoad (Ptr 0 0) (Ptr 4 0) 2560,
           Convolution3d_smiv (Ptr 0 0) (Ptr 1 0) (conv_small\<lparr>outputs := dims 8 8 4 0\<rparr>)
             (Ptr 2 0),
           Invoke_reduction_hw (Ptr 2 0) (conv_small\<lparr>outputs := dims 8 8 4 0\<rparr>) (Ptr 0 0) 64
             (Ptr 3 0),
           Reduction_smiv (Ptr 2 0) (conv_small\<lparr>outputs := dims 8 8 4 0\<rparr>) (Ptr 0 0),
           DmaStore (Ptr 3 0) (Ptr 0 0) 256,
           Memcpy (Ptr 6 0) (Ptr 3 0) 256,
           Invoke_convolution_layer_hw (Ptr 4 0) (Ptr 5 0) (Ptr 0 0) (Ptr 1 0)
             (conv_small\<lparr>outputs := dims 8 8 4 0\<rparr>) 0 0 1 0 (Ptr 2 0),
           DmaLoad (Ptr 1 0) (Ptr 5 96) 384,
           DmaLoad (Ptr 0 0) (Ptr 4 0) 2560,
           Convolution3d_smiv (Ptr 0 0) (Ptr 1 0) (conv_small\<lparr>outputs := dims 8 8 4 0\<rparr>)
             (Ptr 2 0),
           Invoke_reduction_hw (Ptr 2 0) (conv_small\<lparr>outputs := dims 8 8 4 0\<rparr>) (Ptr 0 0) 64
             (Ptr 3 0),
           Reduction_smiv (Ptr 2 0) (conv_small\<lparr>outputs := dims 8 8 4 0\<rparr>) (Ptr 0 0),
           DmaStore (Ptr 3 0) (Ptr 0 0) 256,
           Memcpy (Ptr 6 64) (Ptr 3 0) 256],
          None)"
proof -
  have calls: "convolution_runner_trace ext_ex g_ex (Ptr 3 0) (Ptr 4 0) (Ptr 5 0) [conv_small] 0 (Ptr 6 0)
       = ([Invoke_convolution_layer_hw (Ptr 4 0) (Ptr 5 0) (Ptr 0 0) (Ptr 1 0)
             (conv_small\<lparr>outputs := dims 8 8 4 0\<rparr>) 0 0 0 0 (Ptr 2 0),
           DmaLoad (Ptr 1 0) (Ptr 5 0) 384,
           DmaLoad (Ptr 0 0) (Ptr 4 0) 2560,
           Convolution3d_smiv (Ptr 0 0) (Ptr 1 0) (conv_small\<lparr>outputs := dims 8 8 4 0\<rparr>)
             (Ptr 2 0),
           Invoke_reduction_hw (Ptr 2 0) (conv_small\<lparr>outputs := dims 8 8 4 0\<rparr>) (Ptr 0 0) 64
             (Ptr 3 0),
           Reduction_smiv (Ptr 2 0) (conv_small\<lparr>outputs := dims 8 8 4 0\<rparr>) (Ptr 0 0),
           DmaStore (Ptr 3 0) (Ptr 0 0) 256,
           Memcpy (Ptr 6 0) (Ptr 3 0) 256,
           Invoke_convolution_layer_hw (Ptr 4 0) (Ptr 5 0) (Ptr 0 0) (Ptr 1 0)
             (conv_small\<lparr>outputs := dims 8 8 4 0\<rparr>) 0 0 1 0 (Ptr 2 0),
           DmaLoad (Ptr 1 0) (Ptr 5 96) 384,
           DmaLoad (Ptr 0 0) (Ptr 4 0) 2560,
           Convolution3d_smiv (Ptr 0 0) (Ptr 1 0) (conv_small\<lparr>outputs := dims 8 8 4 0\<rparr>)
             (Ptr 2 0),
           Invoke_reduction_hw (Ptr 2 0) (conv_small\<lparr>outputs := dims 8 8 4 0\<rparr>) (Ptr 0 0) 64
             (Ptr 3 0),
           Reduction_smiv (Ptr 2 0) (conv_small\<lparr>outputs := dims 8 8 4 0\<rparr>) (Ptr 0 0),
           DmaStore (Ptr 3 0) (Ptr 0 0) 256,
           Memcpy (Ptr 6 64) (Ptr 3 0) 256],
          None)"
    by (simp add: convolution_runner_trace_def conv_small_plan Let_def)
      (simp add: conv_kernel_trace_def final_reduction_def convolution_layer_hw_def
        reduction_hw_def iteration_layer_def result_2d_size_def
        conv_small_def dims_def ext_ex_def g_ex_def upt_rec Let_def)
  have pairs: "nat (NUM_TEST_CASES ext_ex) = 1"
    "nat (sint (height (outputs conv_deep))) = 1"
    "nat (sint (height (outputs conv_tiled))) = 1"
    "nat (sint (height (outputs conv_small))) = 2"
    by (simp_all add: ext_ex_def conv_deep_def conv_tiled_def conv_small_def dims_def)
  define Rd where
    "Rd = convolution_runner_trace ext_ex g_ex (Ptr 3 0) (Ptr 4 0) (Ptr 5 0) [conv_deep] 0 (Ptr 6 0)"
  define Rt where
    "Rt = convolution_runner_trace ext_ex g_ex (Ptr 3 0) (Ptr 4 0) (Ptr 5 0) [conv_tiled] 0 (Ptr 6 0)"
  define Rs where
    "Rs = convolution_runner_trace ext_ex g_ex (Ptr 3 0) (Ptr 4 0) (Ptr 5 0) [conv_small] 0 (Ptr 6 0)"
  note d = runner_partial_layer [where ext = ext_ex and ls = "[conv_deep]" and lnum = 0 and g = g_ex
        and tmp = "Ptr 3 0" and ha = "Ptr 4 0" and hw = "Ptr 5 0" and hr = "Ptr 6 0",
        unfolded conv_deep_plan sum.case, folded Rd_def]
  have d2: "snd Rd \<noteq> None"
    using d [THEN conjunct2] by (simp add: conv_deep_final_reduction pairs)
  have "partial_layers (fst Rd)
          = replicate 9 (conv_deep\<lparr>inputs := (inputs conv_deep)\<lparr>height := 2\<rparr>,
                                     outputs := (outputs conv_deep)\<lparr>height := 2\<rparr>,
                                     weights := (weights conv_deep)\<lparr>height := 2\<rparr>,
                                     activation := NONE\<rparr>)"
    using d [THEN conjunct1] d2 by (simp add: dims_def)
  then have d1: "partial_layers (fst Rd)
     = replicate 9 (conv_deep\<lparr>inputs := dims 130 130 2 6, outputs := dims 128 128 2 0,
                                weights := dims 3 3 2 5, activation := NONE\<rparr>)"
    by (simp add: conv_deep_def dims_def)
  note t = runner_partial_layer [where ext = ext_ex and ls = "[conv_tiled]" and lnum = 0 and g = g_ex
        and tmp = "Ptr 3 0" and ha = "Ptr 4 0" and hw = "Ptr 5 0" and hr = "Ptr 6 0",
        unfolded conv_tiled_plan sum.case, folded Rt_def]
  have t2: "snd Rt = None"
    using t [THEN conjunct2] by (simp add: conv_tiled_final_reduction pairs)
  have "partial_layers (fst Rt)
          = replicate 3 (conv_tiled\<lparr>inputs := (inputs conv_tiled)\<lparr>height := 2\<rparr>,
                                      outputs := (outputs conv_tiled)\<lparr>height := 2\<rparr>,
                                      weights := (weights conv_tiled)\<lparr>height := 2\<rparr>,
                                      activation := NONE\<rparr>)"
    using t [THEN conjunct1] t2 by (simp add: pairs dims_def numeral_3_eq_3)
  then have t1: "partial_layers (fst Rt)
       = replicate 3 (conv_tiled\<lparr>inputs := dims 130 130 2 6, outputs := dims 128 128 2 0,
                                  weights := dims 3 3 2 5, activation := NONE\<rparr>)"
    by (simp add: conv_tiled_def dims_def)
  note s = runner_partial_layer [where ext = ext_ex and ls = "[conv_small]" and lnum = 0 and g = g_ex
        and tmp = "Ptr 3 0" and ha = "Ptr 4 0" and hw = "Ptr 5 0" and hr = "Ptr 6 0",
        unfolded conv_small_plan sum.case, folded Rs_def]
  have s2: "snd Rs = None"
    using s [THEN conjunct2] by (simp add: final_reduction_def)
  have "partial_layers (fst Rs)
          = replicate 2 (conv_small\<lparr>inputs := (inputs conv_small)\<lparr>height := 4\<rparr>,
                                      outputs := (outputs conv_small)\<lparr>height := 4\<rparr>,
                                      weights := (weights conv_small)\<lparr>height := 4\<rparr>,
                                      activation := activation conv_small\<rparr>)"
    using s [THEN conjunct1] s2 by (simp add: pairs dims_def numeral_2_eq_2)
  then have s1: "partial_layers (fst Rs)
       = replicate 2 (conv_small\<lparr>inputs := dims 10 10 4 6, outputs := dims 8 8 4 0,
                                  weights := dims 3 3 4 5\<rparr>)"
    by (simp add: conv_small_def dims_def)
  show ?thesis
    using d1 d2 t1 t2 s1 calls unfolding Rd_def Rt_def Rs_def by (simp only: simp_thms)
qed





end
